theory Spec2Isabelle
  imports
    Main
    "HOL-Library.Char_ord"
    "HOL-Library.List_Lexorder"
    "HOL-Library.Product_Lexorder"
    "HOL-Library.Multiset"
begin

section \<open>Strings of the host language\<close>

text \<open>
  The generator is TypeScript on Node. Its strings are modelled as \<open>string\<close> (a list of
  bytes); on ASCII text, which is what the directory layout and the permalinks of the
  generator are made of, a byte is a UTF-16 code unit and the two agree.
\<close>

definition startsWith :: "string \<Rightarrow> string \<Rightarrow> bool" where
  "startsWith s p = (take (length p) s = p)"

definition endsWith :: "string \<Rightarrow> string \<Rightarrow> bool" where
  "endsWith s p = (length p \<le> length s \<and> drop (length s - length p) s = p)"

text \<open>\<open>s.split(sep)\<close> for a separator class: the empty string splits into one empty piece.\<close>

fun splitOn :: "(char \<Rightarrow> bool) \<Rightarrow> string \<Rightarrow> string list" where
  "splitOn P [] = [[]]"
| "splitOn P (c # cs) =
     (if P c then [] # splitOn P cs
      else (case splitOn P cs of [] \<Rightarrow> [[c]] | s # ss \<Rightarrow> (c # s) # ss))"

text \<open>\<open>xs.join(sep)\<close>.\<close>

fun joinWith :: "string \<Rightarrow> string list \<Rightarrow> string" where
  "joinWith sep [] = []"
| "joinWith sep [x] = x"
| "joinWith sep (x # y # ys) = x @ sep @ joinWith sep (y # ys)"

definition isUpper :: "char \<Rightarrow> bool" where
  "isUpper c = (CHR ''A'' \<le> c \<and> c \<le> CHR ''Z'')"

definition isLower :: "char \<Rightarrow> bool" where
  "isLower c = (CHR ''a'' \<le> c \<and> c \<le> CHR ''z'')"

definition isDigit :: "char \<Rightarrow> bool" where
  "isDigit c = (CHR ''0'' \<le> c \<and> c \<le> CHR ''9'')"

text \<open>The regular expression class \<open>\s\<close> on ASCII: space, TAB, LF, VT, FF, CR.\<close>

definition isSpace :: "char \<Rightarrow> bool" where
  "isSpace c = (c = CHR '' '' \<or> c = CHR 0x09 \<or> c = CHR 0x0A \<or> c = CHR 0x0B
                \<or> c = CHR 0x0C \<or> c = CHR 0x0D)"

definition toLowerChar :: "char \<Rightarrow> char" where
  "toLowerChar c = (if isUpper c then char_of (of_char c + (32::nat)) else c)"

text \<open>\<open>s.toLowerCase()\<close>, on ASCII letters.\<close>

definition toLowerCase :: "string \<Rightarrow> string" where
  "toLowerCase s = map toLowerChar s"

section \<open>Node's \<open>path\<close> module (POSIX flavour)\<close>

definition isSep :: "char \<Rightarrow> bool" where
  "isSep c = (c = CHR ''/'')"

definition isAbsolute :: "string \<Rightarrow> bool" where
  "isAbsolute p = (case p of [] \<Rightarrow> False | c # _ \<Rightarrow> isSep c)"

text \<open>
  \<open>normalizeString\<close> of an absolute path: empty and \<open>.\<close> components vanish, \<open>..\<close> removes
  the component before it and is dropped at the root.
\<close>

definition normalizeStep :: "string list \<Rightarrow> string \<Rightarrow> string list" where
  "normalizeStep acc seg =
     (if seg = [] \<or> seg = ''.'' then acc
      else if seg = ''..'' then butlast acc
      else acc @ [seg])"

definition normalizeParts :: "string list \<Rightarrow> string list" where
  "normalizeParts segs = foldl normalizeStep [] segs"

text \<open>
  \<open>path.resolve(a, b)\<close>, as the components of the absolute result: the arguments are
  read from the right until one is absolute, the working directory coming last.
\<close>

definition resolveParts :: "string \<Rightarrow> string \<Rightarrow> string \<Rightarrow> string list" where
  "resolveParts cwd a b =
     normalizeParts (splitOn isSep
       (if isAbsolute b then b
        else if isAbsolute a then a @ ''/'' @ b
        else cwd @ ''/'' @ a @ ''/'' @ b))"

definition path_resolve :: "string \<Rightarrow> string \<Rightarrow> string \<Rightarrow> string" where
  "path_resolve cwd a b = ''/'' @ joinWith ''/'' (resolveParts cwd a b)"

fun dropCommon :: "string list \<Rightarrow> string list \<Rightarrow> string list \<times> string list" where
  "dropCommon (x # xs) (y # ys) = (if x = y then dropCommon xs ys else (x # xs, y # ys))"
| "dropCommon xs ys = (xs, ys)"

text \<open>
  \<open>path.relative(from, to)\<close>: both are resolved, the common leading components are
  dropped, and what is left of \<open>from\<close> is climbed with \<open>..\<close>.
\<close>

definition path_relative :: "string \<Rightarrow> string \<Rightarrow> string \<Rightarrow> string" where
  "path_relative cwd from to =
     (case dropCommon (resolveParts cwd [] from) (resolveParts cwd [] to) of
        (up, down) \<Rightarrow> joinWith ''/'' (replicate (length up) ''..'' @ down))"

text \<open>\<open>path.basename(p)\<close>: the last component, trailing separators ignored.\<close>

definition path_basename :: "string \<Rightarrow> string" where
  "path_basename p = rev (takeWhile (\<lambda>c. \<not> isSep c) (dropWhile isSep (rev p)))"

text \<open>
  \<open>path.extname(p)\<close>: from the last dot of the last component, unless that component
  has no dot, starts with its only dot, or is \<open>..\<close>.
\<close>

definition extOfBase :: "string \<Rightarrow> string" where
  "extOfBase base =
     (if CHR ''.'' \<in> set base then
        (let e = rev (takeWhile (\<lambda>c. c \<noteq> CHR ''.'') (rev base));
             stem = take (length base - length e - 1) base
         in if stem = [] \<or> base = ''..'' then [] else CHR ''.'' # e)
      else [])"

definition path_extname :: "string \<Rightarrow> string" where
  "path_extname p = extOfBase (path_basename p)"

text \<open>\<open>path.dirname(p)\<close>.\<close>

definition path_dirname :: "string \<Rightarrow> string" where
  "path_dirname p =
     (case p of
        [] \<Rightarrow> ''.''
      | c # cs \<Rightarrow>
          (let r = dropWhile (\<lambda>c. \<not> isSep c) (dropWhile isSep (rev cs))
           in if r = [] then (if isSep c then ''/'' else ''.'')
              else if isSep c \<and> tl r = [] then ''//''
              else c # rev (tl r)))"

text \<open>
  \<open>path.parse(p)\<close>, the two fields the generator reads: \<open>dir\<close> (what stands before the
  separator in front of the last component) and \<open>name\<close> (the last component without its
  extension).
\<close>

definition parsed_dir :: "string \<Rightarrow> string" where
  "parsed_dir p =
     (let root = (if isAbsolute p then ''/'' else []);
          body = (if isAbsolute p then tl p else p);
          r = dropWhile (\<lambda>c. \<not> isSep c) (dropWhile isSep (rev body))
      in if r = [] then root else root @ rev (tl r))"

definition parsed_name :: "string \<Rightarrow> string" where
  "parsed_name p =
     (let base = path_basename (if isAbsolute p then tl p else p)
      in take (length base - length (extOfBase base)) base)"

section \<open>The \<open>slugify\<close> package, called with \<open>lower\<close> and \<open>strict\<close>\<close>

text \<open>
  The package is a dependency of the generator, not part of its sources. The model follows
  the \<open>replace\<close> function of its version 1.6 on ASCII input, step by step: each character is
  looked up in the character map, a result equal to the replacement \<open>-\<close> becomes a space,
  and characters outside the default allow list are removed; \<open>strict\<close> then removes
  everything but letters, digits and white space; the text is trimmed; each run of white
  space becomes one \<open>-\<close>; \<open>lower\<close> lower-cases the result. The ASCII entries of the
  character map are the six below.

  On text outside ASCII the package transliterates through the other entries of its
  character map (\<open>Uber\<close> for the word written with U umlaut), which the model does not
  have: it removes such bytes, so the slug of a text outside ASCII is not the one of the
  package. What is proved of every slug below, its characters and its single hyphens,
  is the work of the steps after the map and holds of the package's result on any text.
\<close>

definition charMap :: "char \<Rightarrow> string option" where
  "charMap c =
     (if c = CHR ''$'' then Some ''dollar''
      else if c = CHR ''%'' then Some ''percent''
      else if c = CHR ''&'' then Some ''and''
      else if c = CHR ''<'' then Some ''less''
      else if c = CHR ''>'' then Some ''greater''
      else if c = CHR ''|'' then Some ''or''
      else None)"

definition isAlnum :: "char \<Rightarrow> bool" where
  "isAlnum c = (isUpper c \<or> isLower c \<or> isDigit c)"

text \<open>The characters that survive the default \<open>remove\<close> expression of the package.\<close>

definition allowedChar :: "char \<Rightarrow> bool" where
  "allowedChar c =
     (isAlnum c \<or> isSpace c \<or> c = CHR ''_'' \<or> c = CHR ''$'' \<or> c = CHR ''*''
      \<or> c = CHR ''+'' \<or> c = CHR ''~'' \<or> c = CHR ''.'' \<or> c = CHR ''('' \<or> c = CHR '')''
      \<or> c = CHR 0x27 \<or> c = CHR 0x22 \<or> c = CHR ''!'' \<or> c = CHR ''-'' \<or> c = CHR '':''
      \<or> c = CHR ''@'')"

definition appendChar :: "char \<Rightarrow> string" where
  "appendChar ch =
     (let a = (case charMap ch of Some w \<Rightarrow> w | None \<Rightarrow> [ch]);
          b = (if a = ''-'' then '' '' else a)
      in filter allowedChar b)"

definition strictChar :: "char \<Rightarrow> bool" where
  "strictChar c = (isAlnum c \<or> isSpace c)"

definition trim :: "string \<Rightarrow> string" where
  "trim s = rev (dropWhile isSpace (rev (dropWhile isSpace s)))"

text \<open>\<open>s.replace(/\s+/g, '-')\<close>; the flag says that the previous character was white space.\<close>

fun replaceSpaces :: "bool \<Rightarrow> string \<Rightarrow> string" where
  "replaceSpaces inRun [] = []"
| "replaceSpaces inRun (c # cs) =
     (if isSpace c then (if inRun then replaceSpaces True cs
                         else CHR ''-'' # replaceSpaces True cs)
      else c # replaceSpaces False cs)"

definition slugify :: "string \<Rightarrow> string" where
  "slugify s =
     toLowerCase (replaceSpaces False (trim (filter strictChar (concat (map appendChar s)))))"

section \<open>The path name of \<open>new URL(input, 'http://dummybase.com')\<close>\<close>

text \<open>
  The URL parser of the platform (the URL Standard), for an input that starts with \<open>/\<close>
  (the generator passes no other) and the base above. Leading and trailing C0 controls and
  spaces are stripped, TAB, LF and CR are removed, a query or fragment is cut off, \<open>/\<close>
  and the backslash separate path segments, \<open>.\<close> and \<open>..\<close> segments are resolved, and each
  remaining character is percent-encoded when it is in the path percent-encode set (the C0
  controls, the space, the double quote, \<open>#\<close>, \<open><\<close>, \<open>>\<close>, \<open>?\<close>, the backquote, the braces
  and every byte above \<open>~\<close>).

  An input that starts with two separators names an authority: credentials up to the last
  \<open>@\<close>, then a host and perhaps a port. The parser fails (the constructor throws) when the
  host is missing or not valid or the port is not a number up to 65535. A host in brackets
  is an IPv6 address; any other host is percent-decoded, must have no forbidden code point,
  and is an IPv4 address when its last label is a number. What the model leaves out is the
  IDNA processing of a domain that has a label starting with \<open>xn--\<close> or a byte outside
  ASCII: such a domain is taken as valid.
\<close>

definition isC0OrSpace :: "char \<Rightarrow> bool" where
  "isC0OrSpace c = (c \<le> CHR '' '')"

definition isTabOrNewline :: "char \<Rightarrow> bool" where
  "isTabOrNewline c = (c = CHR 0x09 \<or> c = CHR 0x0A \<or> c = CHR 0x0D)"

definition isUrlSep :: "char \<Rightarrow> bool" where
  "isUrlSep c = (c = CHR ''/'' \<or> c = CHR 0x5C)"

definition isQueryOrFragment :: "char \<Rightarrow> bool" where
  "isQueryOrFragment c = (c = CHR ''?'' \<or> c = CHR ''#'')"

definition inPathEncodeSet :: "char \<Rightarrow> bool" where
  "inPathEncodeSet c =
     (c \<le> CHR '' '' \<or> CHR ''~'' < c \<or> c = CHR 0x22 \<or> c = CHR ''#'' \<or> c = CHR ''<''
      \<or> c = CHR ''>'' \<or> c = CHR ''?'' \<or> c = CHR 0x60 \<or> c = CHR ''{'' \<or> c = CHR ''}'')"

definition hexDigit :: "nat \<Rightarrow> char" where
  "hexDigit n = (if n < 10 then char_of (48 + n) else char_of (55 + n))"

definition percentEncode :: "char \<Rightarrow> string" where
  "percentEncode c =
     (if inPathEncodeSet c
      then [CHR ''%'', hexDigit (of_char c div 16), hexDigit (of_char c mod 16)]
      else [c])"

definition isSingleDot :: "string \<Rightarrow> bool" where
  "isSingleDot seg = (toLowerCase seg = ''.'' \<or> toLowerCase seg = ''%2e'')"

definition isDoubleDot :: "string \<Rightarrow> bool" where
  "isDoubleDot seg =
     (toLowerCase seg = ''..'' \<or> toLowerCase seg = ''.%2e''
      \<or> toLowerCase seg = ''%2e.'' \<or> toLowerCase seg = ''%2e%2e'')"

text \<open>
  The path state, one segment at a time; the last segment is the one the end of the
  input closes, after which a dot segment leaves an empty segment behind.
\<close>

fun pathState :: "string list \<Rightarrow> string list \<Rightarrow> string list" where
  "pathState [] path = path"
| "pathState [seg] path =
     (if isDoubleDot seg then butlast path @ [[]]
      else if isSingleDot seg then path @ [[]]
      else path @ [seg])"
| "pathState (seg # rest) path =
     (if isDoubleDot seg then pathState rest (butlast path)
      else if isSingleDot seg then pathState rest path
      else pathState rest (path @ [seg]))"

definition pathnameOf :: "string \<Rightarrow> string" where
  "pathnameOf rest =
     concat (map (\<lambda>seg. CHR ''/'' # seg)
       (pathState
          (map (\<lambda>seg. concat (map percentEncode seg))
             (splitOn isUrlSep (takeWhile (\<lambda>c. \<not> isQueryOrFragment c) rest)))
          []))"

text \<open>The host of an authority. Percent-decoding turns \<open>%\<close> and two hexadecimal digits into a byte.\<close>

definition isHexDigit :: "char \<Rightarrow> bool" where
  "isHexDigit c =
     (isDigit c \<or> (CHR ''a'' \<le> c \<and> c \<le> CHR ''f'') \<or> (CHR ''A'' \<le> c \<and> c \<le> CHR ''F''))"

definition hexValue :: "char \<Rightarrow> int" where
  "hexValue c =
     (if isDigit c then of_char c - 48
      else if CHR ''a'' \<le> c then of_char c - 87
      else of_char c - 55)"

fun percentDecode :: "string \<Rightarrow> string" where
  "percentDecode (c # h # l # rest) =
     (if c = CHR ''%'' \<and> isHexDigit h \<and> isHexDigit l
      then char_of (16 * hexValue h + hexValue l) # percentDecode rest
      else c # percentDecode (h # l # rest))"
| "percentDecode cs = cs"

text \<open>The forbidden domain code points: the forbidden host code points, the C0 controls, \<open>%\<close> and DEL.\<close>

definition forbiddenDomainChar :: "char \<Rightarrow> bool" where
  "forbiddenDomainChar c =
     (c \<le> CHR '' '' \<or> c = CHR 0x7F \<or> c = CHR ''#'' \<or> c = CHR ''%'' \<or> c = CHR ''/''
      \<or> c = CHR '':'' \<or> c = CHR ''<'' \<or> c = CHR ''>'' \<or> c = CHR ''?'' \<or> c = CHR ''@''
      \<or> c = CHR ''['' \<or> c = CHR 0x5C \<or> c = CHR '']'' \<or> c = CHR ''^'' \<or> c = CHR ''|'')"

text \<open>
  The IPv4 number parser: \<open>0x\<close> announces a hexadecimal and a leading \<open>0\<close> an octal number;
  nothing after the prefix is the number zero.
\<close>

definition digitsValue :: "int \<Rightarrow> string \<Rightarrow> int" where
  "digitsValue radix ds = foldl (\<lambda>n c. n * radix + hexValue c) 0 ds"

definition isRadixDigit :: "int \<Rightarrow> char \<Rightarrow> bool" where
  "isRadixDigit radix c = (isHexDigit c \<and> hexValue c < radix)"

definition ipv4Number :: "string \<Rightarrow> int option" where
  "ipv4Number part =
     (if part = [] then None
      else if 2 \<le> length part \<and> (take 2 part = ''0x'' \<or> take 2 part = ''0X'')
        then (if list_all (isRadixDigit 16) (drop 2 part)
              then Some (digitsValue 16 (drop 2 part)) else None)
      else if 2 \<le> length part \<and> hd part = CHR ''0''
        then (if list_all (isRadixDigit 8) (tl part)
              then Some (digitsValue 8 (tl part)) else None)
      else if list_all (isRadixDigit 10) part then Some (digitsValue 10 part) else None)"

text \<open>The labels of a host; an empty last label is left out when it is not the only one.\<close>

definition dotParts :: "string \<Rightarrow> string list" where
  "dotParts host =
     (let parts = splitOn (\<lambda>c. c = CHR ''.'') host
      in if last parts = [] \<and> 1 < length parts then butlast parts else parts)"

text \<open>The ends-in-a-number checker and the IPv4 parser, as far as it fails or not.\<close>

definition endsInNumber :: "string \<Rightarrow> bool" where
  "endsInNumber host =
     (let l = last (dotParts host)
      in if l \<noteq> [] \<and> list_all isDigit l then True
         else (case ipv4Number l of None \<Rightarrow> False | Some n \<Rightarrow> True))"

definition validIPv4 :: "string \<Rightarrow> bool" where
  "validIPv4 host =
     (case those (map ipv4Number (dotParts host)) of
        None \<Rightarrow> False
      | Some numbers \<Rightarrow>
          length numbers \<le> 4 \<and> list_all (\<lambda>n. n \<le> 255) (butlast numbers)
          \<and> last numbers < 256 ^ (5 - length numbers))"

text \<open>The host parser on a domain, and the port.\<close>

definition validDomain :: "string \<Rightarrow> bool" where
  "validDomain input =
     (let domain = percentDecode input
      in domain \<noteq> [] \<and> list_all (\<lambda>c. \<not> forbiddenDomainChar c) domain
         \<and> (if endsInNumber domain then validIPv4 domain else True))"

definition validPort :: "string \<Rightarrow> bool" where
  "validPort port = (list_all isDigit port \<and> digitsValue 10 port \<le> 65535)"

text \<open>
  The IPv6 parser, as far as it fails or not: \<open>idx\<close> counts the pieces read, \<open>compress\<close>
  says that \<open>::\<close> has been seen, and an IPv4 address may close the text.
\<close>

definition ipv4InIpv6 :: "string \<Rightarrow> bool" where
  "ipv4InIpv6 s =
     (let parts = splitOn (\<lambda>c. c = CHR ''.'') s
      in length parts = 4
         \<and> list_all (\<lambda>p. p \<noteq> [] \<and> list_all isDigit p
                          \<and> (if length p = 1 then True else hd p \<noteq> CHR ''0'')
                          \<and> digitsValue 10 p \<le> 255) parts)"

function ipv6Pieces :: "nat \<Rightarrow> bool \<Rightarrow> string \<Rightarrow> bool" where
  "ipv6Pieces idx compress [] = (compress \<or> idx = 8)"
| "ipv6Pieces idx compress (c # cs) =
     (if idx = 8 then False
      else if c = CHR '':'' then (if compress then False else ipv6Pieces (Suc idx) True cs)
      else
        (let n = length (takeWhile isHexDigit (take 4 (c # cs)))
         in if n = 0 then False
            else (case drop n (c # cs) of
                    [] \<Rightarrow> (compress \<or> Suc idx = 8)
                  | r # after \<Rightarrow>
                      if r = CHR ''.'' then idx \<le> 6 \<and> ipv4InIpv6 (c # cs) \<and> (compress \<or> idx = 6)
                      else if r = CHR '':'' then after \<noteq> [] \<and> ipv6Pieces (Suc idx) compress after
                      else False)))"
  by pat_completeness auto

termination
proof (relation "measure (\<lambda>(idx, compress, s). length s)")
  show "wf (measure (\<lambda>(idx, compress, s). length s))" by simp
next
  fix idx compress c cs
  show "((Suc idx, True, cs), idx, compress, c # cs) \<in> measure (\<lambda>(idx, compress, s). length s)"
    by simp
next
  fix idx compress c cs x x2 x22
  assume "drop x (c # cs) = x2 # x22"
  then have "length (drop x (c # cs)) = Suc (length x22)" by simp
  then have "length x22 < length (c # cs)" by simp
  then show "((Suc idx, compress, x22), idx, compress, c # cs)
               \<in> measure (\<lambda>(idx, compress, s). length s)" by simp
qed

definition validIPv6 :: "string \<Rightarrow> bool" where
  "validIPv6 s =
     (if startsWith s ''::'' then ipv6Pieces 1 True (drop 2 s)
      else if startsWith s '':'' then False
      else ipv6Pieces 0 False s)"

text \<open>
  The authority state, the host state and the port state: the host and the port stand
  after the last \<open>@\<close>; a colon outside brackets ends the host.
\<close>

definition validAuthority :: "string \<Rightarrow> bool" where
  "validAuthority authority =
     (let hostPort = rev (takeWhile (\<lambda>c. c \<noteq> CHR ''@'') (rev authority))
      in if startsWith hostPort ''[''
         then (let inner = takeWhile (\<lambda>c. c \<noteq> CHR '']'') (tl hostPort)
               in case drop (length inner) (tl hostPort) of
                    [] \<Rightarrow> False
                  | b # port \<Rightarrow>
                      validIPv6 inner
                      \<and> (case port of [] \<Rightarrow> True
                          | p # digits \<Rightarrow> p = CHR '':'' \<and> validPort digits))
         else (let host = takeWhile (\<lambda>c. c \<noteq> CHR '':'') hostPort
               in validDomain host \<and> validPort (drop (Suc (length host)) hostPort)))"

definition urlPathname :: "string \<Rightarrow> string option" where
  "urlPathname input =
     (let s = filter (\<lambda>c. \<not> isTabOrNewline c)
                (rev (dropWhile isC0OrSpace (rev (dropWhile isC0OrSpace input))))
      in case s of
           [] \<Rightarrow> None
         | c # rest \<Rightarrow>
             if isUrlSep c then
               (case rest of
                  [] \<Rightarrow> Some (pathnameOf [])
                | d # _ \<Rightarrow>
                    if isUrlSep d then
                      (let auth = dropWhile isUrlSep rest;
                           authority = takeWhile (\<lambda>c. \<not> isUrlSep c \<and> \<not> isQueryOrFragment c) auth;
                           after = dropWhile (\<lambda>c. \<not> isUrlSep c \<and> \<not> isQueryOrFragment c) auth
                       in if validAuthority authority
                          then Some (pathnameOf (case after of [] \<Rightarrow> []
                                 | e # others \<Rightarrow> if isUrlSep e then others else after))
                          else None)
                    else Some (pathnameOf rest))
             else None)"

section \<open>Front matter, configuration and content items\<close>

text \<open>
  A front matter value, as far as the generator looks at it. A date object carries its
  time value in milliseconds, or nothing when it is an invalid date. \<open>JNum\<close> stands for
  a number by an integer (only whether it is zero matters here), \<open>JObject\<close> for arrays
  and nested mappings.
\<close>

datatype jsval =
    JUndefined
  | JNull
  | JBool bool
  | JNum int
  | JStr string
  | JDate "int option"
  | JObject

type_synonym FrontMatter = "string \<Rightarrow> jsval option"

definition fmGet :: "FrontMatter \<Rightarrow> string \<Rightarrow> jsval" where
  "fmGet fm k = (case fm k of None \<Rightarrow> JUndefined | Some v \<Rightarrow> v)"

text \<open>The truth of a value in a condition (\<open>if (frontMatter.slug)\<close>).\<close>

fun truthy :: "jsval \<Rightarrow> bool" where
  "truthy JUndefined = False"
| "truthy JNull = False"
| "truthy (JBool b) = b"
| "truthy (JNum n) = (n \<noteq> 0)"
| "truthy (JStr s) = (s \<noteq> [])"
| "truthy (JDate t) = True"
| "truthy JObject = True"

record SiteConfig =
  title :: string
  baseUrl :: string
  paths_source :: string
  paths_output :: string
  paths_posts :: string
  paths_pages :: string
  paths_drafts :: string
  paths_layouts :: string
  paths_includes :: string
  paths_assets :: string

datatype itemType = Post | Page | Draft

datatype FileType = Markdown | Html

record ContentItem =
  itemId :: string
  sourcePath :: string
  relativePath :: string
  fileType :: FileType
  isDraft :: bool
  frontMatter :: FrontMatter
  rawContent :: string
  htmlContent :: string
  permalink :: string
  outputPath :: string
  outputHref :: string
  date :: "int option"

text \<open>
  A \<open>Post\<close> is a \<open>ContentItem\<close> with the additional property \<open>date\<close>; the other items
  do not have the property, which is the value \<open>None\<close> of the field.
\<close>

record SiteContent =
  posts :: "ContentItem list"
  pages :: "ContentItem list"
  drafts :: "ContentItem list"

record ParsedMarkdown =
  pm_frontMatter :: FrontMatter
  markdownContent :: string
  pm_htmlContent :: string

text \<open>
  What the generator reads from its surroundings: the working directory of the process,
  the result of \<open>parseMarkdownFile\<close> for a file and of \<open>fs.readFile\<close>; \<open>None\<close> is a call
  that throws.
\<close>

record Env =
  cwd :: string
  parseMarkdownFile :: "string \<Rightarrow> ParsedMarkdown option"
  readFile :: "string \<Rightarrow> string option"

datatype exn = SlugifyArgument | InvalidUrl

section \<open>\<open>generatePermalink\<close>\<close>

text \<open>\<open>name.replace(/^\d{4}-\d{2}-\d{2}-/, '')\<close>.\<close>

definition hasDatePrefix :: "string \<Rightarrow> bool" where
  "hasDatePrefix s =
     (11 \<le> length s
      \<and> list_all isDigit (take 4 s) \<and> s ! 4 = CHR ''-''
      \<and> list_all isDigit (take 2 (drop 5 s)) \<and> s ! 7 = CHR ''-''
      \<and> list_all isDigit (take 2 (drop 8 s)) \<and> s ! 10 = CHR ''-'')"

definition stripDatePrefix :: "string \<Rightarrow> string" where
  "stripDatePrefix s = (if hasDatePrefix s then drop 11 s else s)"

text \<open>\<open>slugify\<close> throws on an argument that is not a string.\<close>

definition slugifyValue :: "jsval \<Rightarrow> exn + string" where
  "slugifyValue v = (case v of JStr s \<Rightarrow> Inr (slugify s) | _ \<Rightarrow> Inl SlugifyArgument)"

text \<open>The variable \<open>slug\<close> of \<open>generatePermalink\<close> (its first step).\<close>

definition resolveSlug :: "string \<Rightarrow> FrontMatter \<Rightarrow> itemType \<Rightarrow> exn + string" where
  "resolveSlug itemPath fm t =
     (if truthy (fmGet fm ''slug'') then slugifyValue (fmGet fm ''slug'')
      else if t = Post then Inr (slugify (stripDatePrefix (parsed_name itemPath)))
      else Inr (slugify (parsed_name itemPath)))"

text \<open>The variable \<open>pathSegments\<close>.\<close>

definition pathSegments :: "SiteConfig \<Rightarrow> string \<Rightarrow> itemType \<Rightarrow> string \<Rightarrow> string list" where
  "pathSegments cfg itemPath t slug =
     (if t = Post then [''blog'', slug]
      else if t = Draft then [''drafts'', slug]
      else
        (let pagesBaseDirName = path_basename (paths_pages cfg);
             dirSegments = filter (\<lambda>seg. seg \<noteq> []) (splitOn isSep (parsed_dir itemPath));
             relevantSegments = filter (\<lambda>segment. segment \<noteq> pagesBaseDirName) dirSegments
         in if slug = ''index'' then relevantSegments else relevantSegments @ [slug]))"

text \<open>The trailing slash of the final permalink.\<close>

definition finalPermalink :: "string \<Rightarrow> string \<Rightarrow> string \<Rightarrow> string" where
  "finalPermalink itemPath slug pathname =
     (if pathname \<noteq> ''/'' \<and> (slug = ''index'' \<or> toLowerCase (path_extname itemPath) = ''.md'')
      then (if endsWith pathname ''/'' then pathname else pathname @ ''/'')
      else if pathname \<noteq> ''/'' \<and> \<not> endsWith pathname ''/'' \<and> path_extname itemPath = []
              \<and> slug \<noteq> ''index''
      then pathname @ ''/''
      else pathname)"

definition generatePermalink ::
  "SiteConfig \<Rightarrow> string \<Rightarrow> FrontMatter \<Rightarrow> itemType \<Rightarrow> exn + string" where
  "generatePermalink cfg itemPath fm t =
     (case resolveSlug itemPath fm t of
        Inl e \<Rightarrow> Inl e
      | Inr slug \<Rightarrow>
          (let joinedPath = joinWith ''/'' (pathSegments cfg itemPath t slug)
           in case urlPathname (if startsWith joinedPath ''/'' then joinedPath
                                else ''/'' @ joinedPath) of
                None \<Rightarrow> Inl InvalidUrl
              | Some pathname \<Rightarrow> Inr (finalPermalink itemPath slug pathname)))"

section \<open>\<open>generateOutputPath\<close>\<close>

definition outputFilePath :: "string \<Rightarrow> string" where
  "outputFilePath link =
     (if endsWith link ''/'' then link @ ''index.html''
      else if path_extname link = [] then link @ ''.html''
      else link)"

definition generateOutputPath :: "Env \<Rightarrow> SiteConfig \<Rightarrow> string \<Rightarrow> string" where
  "generateOutputPath env cfg link =
     (let filePath = outputFilePath link;
          relativeOutputPath = (if startsWith filePath ''/'' then drop 1 filePath else filePath)
      in path_resolve (cwd env) (paths_output cfg) relativeOutputPath)"

section \<open>\<open>processItem\<close>\<close>

text \<open>Why a file yields no item; each is a message on the console and the value \<open>null\<close>.\<close>

datatype skip =
    UnsupportedFileType
  | Unpublished
  | InvalidDate
  | ProcessingError

definition fileTypeOf :: "string \<Rightarrow> FileType" where
  "fileTypeOf filePath =
     (if toLowerCase (path_extname filePath) = ''.md'' then Markdown else Html)"

definition readContent ::
  "Env \<Rightarrow> string \<Rightarrow> FileType \<Rightarrow> skip + (FrontMatter \<times> string \<times> string)" where
  "readContent env filePath ft =
     (if ft = Markdown then
        (case parseMarkdownFile env filePath of
           None \<Rightarrow> Inl ProcessingError
         | Some parsed \<Rightarrow>
             Inr (pm_frontMatter parsed, markdownContent parsed, pm_htmlContent parsed))
      else if ft = Html then
        (case readFile env filePath of
           None \<Rightarrow> Inl ProcessingError
         | Some raw \<Rightarrow> Inr (Map.empty, raw, raw))
      else Inl UnsupportedFileType)"

definition processItem :: "Env \<Rightarrow> SiteConfig \<Rightarrow> string \<Rightarrow> itemType \<Rightarrow> skip + ContentItem" where
  "processItem env cfg filePath t =
     (let rel = path_relative (cwd env) (paths_source cfg) filePath;
          ft = fileTypeOf filePath
      in case readContent env filePath ft of
           Inl r \<Rightarrow> Inl r
         | Inr (fm, raw, html) \<Rightarrow>
             if fmGet fm ''published'' = JBool False \<and> t \<noteq> Draft then Inl Unpublished
             else
               (case generatePermalink cfg rel fm t of
                  Inl e \<Rightarrow> Inl ProcessingError
                | Inr link \<Rightarrow>
                    (let baseItem =
                       \<lparr> itemId = rel, sourcePath = filePath, relativePath = rel,
                         fileType = ft, isDraft = (t = Draft), frontMatter = fm,
                         rawContent = raw, htmlContent = html, permalink = link,
                         outputPath = generateOutputPath env cfg link,
                         outputHref = [], date = None \<rparr>
                     in if t = Post then
                          (case fmGet fm ''date'' of
                             JDate (Some ms) \<Rightarrow> Inr (baseItem \<lparr> date := Some ms \<rparr>)
                           | _ \<Rightarrow> Inl InvalidDate)
                        else Inr baseItem)))"

section \<open>\<open>processContent\<close>\<close>

text \<open>
  The type of a file, from the directory it was found in; \<open>RootPage\<close> is the temporary
  \<open>root_page\<close> of the loop, processed as a page. A file outside the known directories has
  no type and is skipped with a warning.
\<close>

datatype foundType = FoundPost | FoundDraft | FoundPage | RootPage

definition classify :: "SiteConfig \<Rightarrow> string \<Rightarrow> foundType option" where
  "classify cfg filePath =
     (if startsWith filePath (paths_posts cfg) then Some FoundPost
      else if startsWith filePath (paths_drafts cfg) then Some FoundDraft
      else if startsWith filePath (paths_pages cfg) then Some FoundPage
      else if path_dirname filePath = paths_source cfg then Some RootPage
      else None)"

fun toItemType :: "foundType \<Rightarrow> itemType" where
  "toItemType FoundPost = Post"
| "toItemType FoundDraft = Draft"
| "toItemType FoundPage = Page"
| "toItemType RootPage = Page"

text \<open>
  The body of the loop over the files, on the three arrays. The files are the absolute
  paths that the glob of \<open>processContent\<close> returns, in its order; the glob asks for the
  \<open>.md\<close> and \<open>.html\<close> files below the posts, pages and drafts roots and directly in the
  source root. The model takes the list as it comes.
\<close>

definition processFile :: "Env \<Rightarrow> SiteConfig \<Rightarrow> SiteContent \<Rightarrow> string \<Rightarrow> SiteContent" where
  "processFile env cfg acc filePath =
     (case classify cfg filePath of
        None \<Rightarrow> acc
      | Some found \<Rightarrow>
          (case processItem env cfg filePath (toItemType found) of
             Inl r \<Rightarrow> acc
           | Inr processedItem \<Rightarrow>
               if isDraft processedItem then acc \<lparr> drafts := drafts acc @ [processedItem] \<rparr>
               else if found = FoundPost then acc \<lparr> posts := posts acc @ [processedItem] \<rparr>
               else acc \<lparr> pages := pages acc @ [processedItem] \<rparr>))"

definition collectItems :: "Env \<Rightarrow> SiteConfig \<Rightarrow> string list \<Rightarrow> SiteContent" where
  "collectItems env cfg files =
     foldl (processFile env cfg) \<lparr> posts = [], pages = [], drafts = [] \<rparr> files"

text \<open>
  \<open>Array.prototype.sort(compare)\<close>: a stable sort; an element moves in front of the
  first one it does not compare greater than.
\<close>

fun insertBy :: "('a \<Rightarrow> 'a \<Rightarrow> int) \<Rightarrow> 'a \<Rightarrow> 'a list \<Rightarrow> 'a list" where
  "insertBy cmp x [] = [x]"
| "insertBy cmp x (y # ys) = (if cmp x y \<le> 0 then x # y # ys else y # insertBy cmp x ys)"

definition sortBy :: "('a \<Rightarrow> 'a \<Rightarrow> int) \<Rightarrow> 'a list \<Rightarrow> 'a list" where
  "sortBy cmp xs = foldr (insertBy cmp) xs []"

text \<open>
  \<open>a.localeCompare(b)\<close> under the root collation of the platform's ICU library, on ASCII:
  strings compare by the primary weights of their characters, where punctuation precedes
  digits, digits precede letters and a letter weighs the same in both cases; strings of
  equal primary weights compare by case, lower case first. Control characters other than
  white space are ignored. (Bytes outside ASCII are ranked after the letters, which is
  not what the library does with the characters they encode.)
\<close>

definition collationOrder :: string where
  "collationOrder =
     [CHR 0x09, CHR 0x0A, CHR 0x0B, CHR 0x0C, CHR 0x0D, CHR '' '', CHR ''_'', CHR ''-'',
      CHR '','', CHR '';'', CHR '':'', CHR ''!'', CHR ''?'', CHR ''.'', CHR 0x27, CHR 0x22,
      CHR ''('', CHR '')'', CHR ''['', CHR '']'', CHR ''{'', CHR ''}'', CHR ''@'', CHR ''*'',
      CHR ''/'', CHR 0x5C, CHR ''&'', CHR ''#'', CHR ''%'', CHR 0x60, CHR ''^'', CHR ''+'',
      CHR ''<'', CHR ''='', CHR ''>'', CHR ''|'', CHR ''~'', CHR ''$'']
     @ ''0123456789abcdefghijklmnopqrstuvwxyz''"

definition collationElement :: "char \<Rightarrow> (nat \<times> nat) option" where
  "collationElement c =
     (if toLowerChar c \<in> set collationOrder
      then Some (length (takeWhile (\<lambda>x. x \<noteq> toLowerChar c) collationOrder),
                 if isUpper c then 1 else 0)
      else if CHR 0x7F < c then Some (of_char c, 0)
      else None)"

definition collationKey :: "string \<Rightarrow> nat list \<times> nat list" where
  "collationKey s =
     (let ces = List.map_filter collationElement s in (map fst ces, map snd ces))"

definition localeCompare :: "string \<Rightarrow> string \<Rightarrow> int" where
  "localeCompare a b =
     (if collationKey a < collationKey b then - 1
      else if collationKey b < collationKey a then 1
      else 0)"

text \<open>
  \<open>date.getTime()\<close> of a post. Only posts are compared by it, and a post has its date
  (lemma \<open>posts_have_date\<close>).
\<close>

definition getTime :: "ContentItem \<Rightarrow> int" where
  "getTime item = the (date item)"

definition processContent :: "Env \<Rightarrow> SiteConfig \<Rightarrow> string list \<Rightarrow> SiteContent" where
  "processContent env cfg files =
     (let found = collectItems env cfg files
      in \<lparr> posts = sortBy (\<lambda>a b. getTime b - getTime a) (posts found),
           pages = sortBy (\<lambda>a b. localeCompare (permalink a) (permalink b)) (pages found),
           drafts = sortBy (\<lambda>a b. localeCompare (permalink a) (permalink b)) (drafts found) \<rparr>)"

text \<open>
  The files of the loop are what the package \<open>fast-glob\<close> returns for the four patterns
  \<open><posts>/**/*.{md,html}\<close>, \<open><pages>/**/*.{md,html}\<close>, \<open><drafts>/**/*.{md,html}\<close> and
  \<open><source>/*.{md,html}\<close>. Each of them ends in the file name pattern \<open>*.{md,html}\<close>, the
  call sets \<open>dot: false\<close>, and names are matched with regard to case (the default of the
  package): a file is returned only if its name does not start with a dot and ends in
  \<open>.md\<close> or in \<open>.html\<close>.
\<close>

definition matchesFileName :: "string \<Rightarrow> bool" where
  "matchesFileName base =
     (\<not> startsWith base ''.'' \<and> (endsWith base ''.md'' \<or> endsWith base ''.html''))"

text \<open>
  The result of the glob, from its candidates: the files that the directory parts of the
  four patterns and the ignore list \<open>**/_*/**\<close>, \<open>**/node_modules/**\<close> admit, in the order
  of the walk. The directory parts are not modelled; the result is the candidates whose
  name matches.
\<close>

definition globFiles :: "string list \<Rightarrow> string list" where
  "globFiles candidates = filter (\<lambda>f. matchesFileName (path_basename f)) candidates"

section \<open>Notions of the specification\<close>

text \<open>
  The pattern \<open>/^\/([a-z0-9-]+\/)*$/\<close> as an automaton: after the leading slash, the flag
  says whether a segment has been started.
\<close>

definition slugChar :: "char \<Rightarrow> bool" where
  "slugChar c = (isLower c \<or> isDigit c \<or> c = CHR ''-'')"



text \<open>
  A path is under a root directory when it continues the root with a separator: the
  file lies in the directory or below it.
\<close>

definition isUnder :: "string \<Rightarrow> string \<Rightarrow> bool" where
  "isUnder root p = startsWith p (root @ ''/'')"

text \<open>A component of a normalised path: not empty, no separator in it, not a dot segment.\<close>

definition plainComponent :: "string \<Rightarrow> bool" where
  "plainComponent s = (s \<noteq> [] \<and> s \<noteq> ''.'' \<and> s \<noteq> ''..'' \<and> list_all (\<lambda>c. \<not> isSep c) s)"




text \<open>The text of a path from its components, each after a slash.\<close>

definition pathOf :: "string list \<Rightarrow> string" where
  "pathOf parts = concat (map (\<lambda>c. CHR ''/'' # c) parts)"





section \<open>A site to run the generator on\<close>

definition exampleConfig :: SiteConfig where
  "exampleConfig =
     \<lparr> title = ''Example'', baseUrl = ''/'',
       paths_source = ''/site'', paths_output = ''/site/output'',
       paths_posts = ''/site/posts'', paths_pages = ''/site/pages'',
       paths_drafts = ''/site/drafts'', paths_layouts = ''/site/layouts'',
       paths_includes = ''/site/includes'', paths_assets = ''/site/assets'' \<rparr>"

text \<open>A configuration whose drafts directory continues the name of the posts directory.\<close>

definition siblingConfig :: SiteConfig where
  "siblingConfig =
     exampleConfig \<lparr> paths_posts := ''/site/content'', paths_drafts := ''/site/content-drafts'' \<rparr>"

definition exampleFrontMatter :: "string \<Rightarrow> FrontMatter" where
  "exampleFrontMatter p =
     (if p = ''/site/posts/2024-01-15-hello-world.md''
        then [''date'' \<mapsto> JDate (Some 1705276800000)]
      else if p = ''/site/posts/2024-02-01-second.md''
        then [''date'' \<mapsto> JDate (Some 1706745600000)]
      else if p = ''/site/posts/2024-02-01-third.md''
        then [''date'' \<mapsto> JDate (Some 1706745600000), ''slug'' \<mapsto> JStr ''Third Post'']
      else if p = ''/site/posts/undated.md''
        then [''date'' \<mapsto> JStr ''soon'']
      else if p = ''/site/pages/hidden.md''
        then [''published'' \<mapsto> JBool False]
      else if p = ''/site/drafts/wip.md''
        then [''published'' \<mapsto> JBool False]
      else if p = ''/site/content-drafts/note.md''
        then [''date'' \<mapsto> JDate (Some 1705276800000)]
      else Map.empty)"

definition exampleEnv :: Env where
  "exampleEnv =
     \<lparr> cwd = ''/site'',
       parseMarkdownFile = (\<lambda>p. Some \<lparr> pm_frontMatter = exampleFrontMatter p,
                                        markdownContent = ''text'',
                                        pm_htmlContent = ''<p>text</p>'' \<rparr>),
       readFile = (\<lambda>p. Some ''<p>html</p>'') \<rparr>"

section \<open>Properties\<close>

subsection \<open>The loop and the sort\<close>

lemma processItem_fields:
  assumes "processItem env cfg f t = Inr item"
  shows "sourcePath item = f"
    and "relativePath item = path_relative (cwd env) (paths_source cfg) f"
    and "fileType item = fileTypeOf f"
    and "isDraft item = (t = Draft)"
    and "generatePermalink cfg (relativePath item) (frontMatter item) t = Inr (permalink item)"
    and "outputPath item = generateOutputPath env cfg (permalink item)"
    and "\<exists>raw html. readContent env f (fileTypeOf f) = Inr (frontMatter item, raw, html)"
    and "(t = Post) = (date item \<noteq> None)"
    and "t = Post \<Longrightarrow> fmGet (frontMatter item) ''date'' = JDate (date item)"
    and "t = Draft \<or> fmGet (frontMatter item) ''published'' \<noteq> JBool False"
  using assms
  by (auto simp: processItem_def Let_def
           split: sum.splits if_splits jsval.splits option.splits prod.splits)

lemma processFile_cases:
  "processFile env cfg acc f = acc
   \<or> (\<exists>item. classify cfg f = Some FoundDraft \<and> processItem env cfg f Draft = Inr item
         \<and> processFile env cfg acc f = acc \<lparr> drafts := drafts acc @ [item] \<rparr>)
   \<or> (\<exists>item. classify cfg f = Some FoundPost \<and> processItem env cfg f Post = Inr item
         \<and> processFile env cfg acc f = acc \<lparr> posts := posts acc @ [item] \<rparr>)
   \<or> (\<exists>item. (classify cfg f = Some FoundPage \<or> classify cfg f = Some RootPage)
         \<and> processItem env cfg f Page = Inr item
         \<and> processFile env cfg acc f = acc \<lparr> pages := pages acc @ [item] \<rparr>)"
proof (cases "classify cfg f")
  case None
  then show ?thesis by (simp add: processFile_def)
next
  case (Some found)
  show ?thesis
  proof (cases "processItem env cfg f (toItemType found)")
    case (Inl r)
    with Some show ?thesis by (simp add: processFile_def)
  next
    case (Inr item)
    from processItem_fields(4)[OF Inr] have d: "isDraft item = (toItemType found = Draft)" .
    from Some Inr d show ?thesis
      by (cases found) (simp_all add: processFile_def)
  qed
qed

lemma foldl_processFile_posts:
  "item \<in> set (posts (foldl (processFile env cfg) acc files)) \<Longrightarrow>
     item \<in> set (posts acc) \<or>
     (\<exists>f \<in> set files. classify cfg f = Some FoundPost \<and> processItem env cfg f Post = Inr item)"
proof (induction files arbitrary: acc)
  case Nil
  then show ?case by simp
next
  case (Cons f fs)
  from Cons.IH[OF Cons.prems[simplified]] processFile_cases[of env cfg acc f]
  show ?case by auto
qed

lemma foldl_processFile_drafts:
  "item \<in> set (drafts (foldl (processFile env cfg) acc files)) \<Longrightarrow>
     item \<in> set (drafts acc) \<or>
     (\<exists>f \<in> set files. classify cfg f = Some FoundDraft \<and> processItem env cfg f Draft = Inr item)"
proof (induction files arbitrary: acc)
  case Nil
  then show ?case by simp
next
  case (Cons f fs)
  from Cons.IH[OF Cons.prems[simplified]] processFile_cases[of env cfg acc f]
  show ?case by auto
qed

lemma foldl_processFile_pages:
  "item \<in> set (pages (foldl (processFile env cfg) acc files)) \<Longrightarrow>
     item \<in> set (pages acc) \<or>
     (\<exists>f \<in> set files. (classify cfg f = Some FoundPage \<or> classify cfg f = Some RootPage)
         \<and> processItem env cfg f Page = Inr item)"
proof (induction files arbitrary: acc)
  case Nil
  then show ?case by simp
next
  case (Cons f fs)
  from Cons.IH[OF Cons.prems[simplified]] processFile_cases[of env cfg acc f]
  show ?case by auto
qed

lemma set_insertBy: "set (insertBy cmp x ys) = insert x (set ys)"
  by (induction ys) auto

lemma set_sortBy: "set (sortBy cmp xs) = set xs"
  unfolding sortBy_def by (induction xs) (simp_all add: set_insertBy)

lemma posts_origin:
  assumes "item \<in> set (posts (processContent env cfg files))"
  shows "\<exists>f \<in> set files. classify cfg f = Some FoundPost \<and> processItem env cfg f Post = Inr item"
  using assms
    foldl_processFile_posts[of item env cfg "\<lparr> posts = [], pages = [], drafts = [] \<rparr>" files]
  by (simp add: processContent_def collectItems_def Let_def set_sortBy)

lemma pages_origin:
  assumes "item \<in> set (pages (processContent env cfg files))"
  shows "\<exists>f \<in> set files. (classify cfg f = Some FoundPage \<or> classify cfg f = Some RootPage)
            \<and> processItem env cfg f Page = Inr item"
  using assms
    foldl_processFile_pages[of item env cfg "\<lparr> posts = [], pages = [], drafts = [] \<rparr>" files]
  by (simp add: processContent_def collectItems_def Let_def set_sortBy)

lemma drafts_origin:
  assumes "item \<in> set (drafts (processContent env cfg files))"
  shows "\<exists>f \<in> set files. classify cfg f = Some FoundDraft \<and> processItem env cfg f Draft = Inr item"
  using assms
    foldl_processFile_drafts[of item env cfg "\<lparr> posts = [], pages = [], drafts = [] \<rparr>" files]
  by (simp add: processContent_def collectItems_def Let_def set_sortBy)

text \<open>
  Every item of the result was built from one of the files, as the type the file was
  found as.
\<close>

lemma item_origin:
  assumes "item \<in> set (posts (processContent env cfg files))
             \<union> set (pages (processContent env cfg files))
             \<union> set (drafts (processContent env cfg files))"
  shows "\<exists>f \<in> set files. \<exists>found. classify cfg f = Some found
            \<and> processItem env cfg f (toItemType found) = Inr item"
proof -
  from assms consider
      (a) "item \<in> set (posts (processContent env cfg files))"
    | (b) "item \<in> set (pages (processContent env cfg files))"
    | (c) "item \<in> set (drafts (processContent env cfg files))"
    by auto
  then show ?thesis
  proof cases
    case a
    from posts_origin[OF a] show ?thesis by (metis toItemType.simps(1))
  next
    case b
    from pages_origin[OF b] show ?thesis by (metis toItemType.simps(3,4))
  next
    case c
    from drafts_origin[OF c] show ?thesis by (metis toItemType.simps(2))
  qed
qed

text \<open>A file that yields no item leaves the result as it is without the file.\<close>

lemma processFile_skip:
  assumes "classify cfg f = Some found" and "processItem env cfg f (toItemType found) = Inl r"
  shows "processFile env cfg acc f = acc"
  using assms by (simp add: processFile_def)

lemma processContent_skip:
  assumes "\<And>acc. processFile env cfg acc f = acc"
  shows "processContent env cfg (before @ f # after) = processContent env cfg (before @ after)"
  by (simp add: processContent_def collectItems_def assms)







lemma html_fileType: "fileTypeOf f \<noteq> Markdown \<Longrightarrow> fileTypeOf f = Html"
  by (cases "fileTypeOf f") simp_all

lemma readContent_html_empty:
  "readContent env f Html = Inr (fm, raw, html) \<Longrightarrow> fm = Map.empty \<and> html = raw"
  by (auto simp: readContent_def split: option.splits)

lemma post_needs_date:
  assumes "readContent env f (fileTypeOf f) = Inr (fm, raw, html)"
    and "\<forall>ms. fmGet fm ''date'' \<noteq> JDate (Some ms)"
  shows "processItem env cfg f Post = Inl Unpublished
       \<or> processItem env cfg f Post = Inl ProcessingError
       \<or> processItem env cfg f Post = Inl InvalidDate"
  using assms
  by (auto simp: processItem_def Let_def split: sum.splits jsval.splits option.splits)

lemma post_invalid_date_reason:
  assumes "readContent env f (fileTypeOf f) = Inr (fm, raw, html)"
    and "\<forall>ms. fmGet fm ''date'' \<noteq> JDate (Some ms)"
    and "fmGet fm ''published'' \<noteq> JBool False"
    and "generatePermalink cfg (path_relative (cwd env) (paths_source cfg) f) fm Post = Inr link"
  shows "processItem env cfg f Post = Inl InvalidDate"
  using assms
  by (auto simp: processItem_def Let_def split: sum.splits jsval.splits option.splits)

lemma html_post_dropped:
  assumes "fileTypeOf f \<noteq> Markdown"
  shows "\<exists>r. processItem env cfg f Post = Inl r"
proof (cases "readContent env f (fileTypeOf f)")
  case (Inl r)
  then show ?thesis by (simp add: processItem_def Let_def)
next
  case (Inr c)
  obtain fm raw html where c: "c = (fm, raw, html)" by (cases c) auto
  from Inr c html_fileType[OF assms] have "fm = Map.empty"
    using readContent_html_empty[of env f fm raw html] by simp
  then have "\<forall>ms. fmGet fm ''date'' \<noteq> JDate (Some ms)" by (simp add: fmGet_def)
  from post_needs_date[OF Inr[unfolded c] this] show ?thesis by blast
qed

text \<open>A file whose processing yields no item is the source of no item of the result.\<close>

lemma not_built_not_present:
  assumes "classify cfg f = Some found"
    and "processItem env cfg f (toItemType found) = Inl r"
    and "item \<in> set (posts (processContent env cfg files))
             \<union> set (pages (processContent env cfg files))
             \<union> set (drafts (processContent env cfg files))"
  shows "sourcePath item \<noteq> f"
proof
  assume eq: "sourcePath item = f"
  from item_origin[OF assms(3)] obtain g found' where
    g: "classify cfg g = Some found'" "processItem env cfg g (toItemType found') = Inr item"
    by blast
  from processItem_fields(1)[OF g(2)] eq have "g = f" by simp
  with g assms(1,2) show False by simp
qed





subsection \<open>Page segments (claim C2)\<close>

text \<open>
  Claim C2 says that the segments of a page's permalink are the directory components of
  its source-relative path with exactly one component equal to the name of the pages root
  removed, so that \<open>pages/pages/foo.md\<close> keeps one \<open>pages\<close>. The generator filters the
  components by name and so removes every component of that name: the page
  \<open>pages/pages/foo.md\<close> has the single segment \<open>foo\<close> and the permalink \<open>/foo/\<close>, where
  the claim gives \<open>/pages/foo/\<close>.
\<close>

theorem pages_root_name_removed_everywhere:
  "pathSegments exampleConfig ''pages/pages/foo.md'' Page ''foo'' = [''foo'']
   \<and> generatePermalink exampleConfig ''pages/pages/foo.md'' Map.empty Page = Inr ''/foo/''
   \<and> map permalink (pages (processContent exampleEnv exampleConfig [''/site/pages/pages/foo.md'']))
       = [''/foo/'']"
  by code_simp

subsection \<open>Posts need a date (claim C4)\<close>

text \<open>
  Claim C4: a file found as a post whose front matter has no valid date (the field is
  absent, is not a date, or is an invalid date) yields no item; when nothing else stops
  the file first, the reason is the warning about the date. No item of the three
  collections has the file as its source, and the result is the one the other files give.
\<close>

theorem post_without_valid_date_dropped:
  assumes "classify cfg f = Some FoundPost"
    and "readContent env f (fileTypeOf f) = Inr (fm, raw, html)"
    and "\<forall>ms. fmGet fm ''date'' \<noteq> JDate (Some ms)"
  shows "(\<exists>r. processItem env cfg f Post = Inl r)
       \<and> (fmGet fm ''published'' \<noteq> JBool False
            \<and> (\<exists>link. generatePermalink cfg (path_relative (cwd env) (paths_source cfg) f) fm Post
                         = Inr link)
          \<longrightarrow> processItem env cfg f Post = Inl InvalidDate)
       \<and> (\<forall>item \<in> set (posts (processContent env cfg files))
                    \<union> set (pages (processContent env cfg files))
                    \<union> set (drafts (processContent env cfg files)). sourcePath item \<noteq> f)
       \<and> processContent env cfg (before @ f # after) = processContent env cfg (before @ after)"
proof -
  from post_needs_date[OF assms(2,3)] obtain r where r: "processItem env cfg f Post = Inl r"
    by blast
  have a: "\<exists>r. processItem env cfg f Post = Inl r" using r by blast
  have b: "fmGet fm ''published'' \<noteq> JBool False
            \<and> (\<exists>link. generatePermalink cfg (path_relative (cwd env) (paths_source cfg) f) fm Post
                         = Inr link)
          \<longrightarrow> processItem env cfg f Post = Inl InvalidDate"
    using post_invalid_date_reason[OF assms(2,3)] by blast
  have c: "\<forall>item \<in> set (posts (processContent env cfg files))
                    \<union> set (pages (processContent env cfg files))
                    \<union> set (drafts (processContent env cfg files)). sourcePath item \<noteq> f"
    using not_built_not_present[OF assms(1), of env r _ files] r by simp
  have "\<And>acc. processFile env cfg acc f = acc"
    using processFile_skip[OF assms(1), of env r] r by simp
  then have d: "processContent env cfg (before @ f # after)
                  = processContent env cfg (before @ after)"
    by (rule processContent_skip)
  from a b c d show ?thesis by blast
qed

theorem post_without_valid_date_dropped_witness:
  "processItem exampleEnv exampleConfig ''/site/posts/undated.md'' Post = Inl InvalidDate
   \<and> processContent exampleEnv exampleConfig
        ([''/site/posts/2024-01-15-hello-world.md'']
           @ ''/site/posts/undated.md'' # [''/site/pages/about.md''])
     = processContent exampleEnv exampleConfig
        ([''/site/posts/2024-01-15-hello-world.md''] @ [''/site/pages/about.md''])"
proof -
  have h1: "classify exampleConfig ''/site/posts/undated.md'' = Some FoundPost" by code_simp
  have ft: "fileTypeOf ''/site/posts/undated.md'' = Markdown" by code_simp
  have h2: "readContent exampleEnv ''/site/posts/undated.md''
              (fileTypeOf ''/site/posts/undated.md'')
            = Inr (exampleFrontMatter ''/site/posts/undated.md'', ''text'', ''<p>text</p>'')"
    by (simp add: ft readContent_def exampleEnv_def)
  have h3: "\<forall>ms. fmGet (exampleFrontMatter ''/site/posts/undated.md'') ''date''
                    \<noteq> JDate (Some ms)"
    by (simp add: fmGet_def exampleFrontMatter_def)
  have h4: "fmGet (exampleFrontMatter ''/site/posts/undated.md'') ''published'' \<noteq> JBool False"
    by (simp add: fmGet_def exampleFrontMatter_def)
  have h5: "generatePermalink exampleConfig
              (path_relative (cwd exampleEnv) (paths_source exampleConfig)
                 ''/site/posts/undated.md'')
              (exampleFrontMatter ''/site/posts/undated.md'') Post = Inr ''/blog/undated/''"
    by code_simp
  from post_without_valid_date_dropped[OF h1 h2 h3] h4 h5 show ?thesis by blast
qed

subsection \<open>Files that are neither Markdown nor HTML (claim C9)\<close>

lemma processItem_content:
  assumes "processItem env cfg f t = Inr item"
  shows "readContent env f (fileTypeOf f) = Inr (frontMatter item, rawContent item, htmlContent item)"
  using assms
  by (auto simp: processItem_def Let_def
           split: sum.splits if_splits jsval.splits option.splits prod.splits)

lemma extOfBase_suffix:
  assumes "stem \<noteq> []" and "CHR ''.'' \<notin> set e" and "e \<noteq> []"
  shows "extOfBase (stem @ CHR ''.'' # e) = CHR ''.'' # e"
proof -
  let ?base = "stem @ CHR ''.'' # e"
  have "takeWhile (\<lambda>c. c \<noteq> CHR ''.'') (rev e @ CHR ''.'' # rev stem)
          = rev e @ takeWhile (\<lambda>c. c \<noteq> CHR ''.'') (CHR ''.'' # rev stem)"
    by (rule takeWhile_append2) (use assms(2) in auto)
  then have tw: "takeWhile (\<lambda>c. c \<noteq> CHR ''.'') (rev ?base) = rev e" by simp
  have len: "length ?base - length e - 1 = length stem" by simp
  have "length ?base \<ge> 3" using assms(1,3) by (cases stem; cases e) simp_all
  have nd: "?base \<noteq> ''..''"
  proof
    assume "?base = ''..''"
    then have "length ?base = length ''..''" by (rule arg_cong)
    with \<open>length ?base \<ge> 3\<close> show False by simp
  qed
  have dot: "CHR ''.'' \<in> set ?base" by simp
  have "extOfBase ?base = (if take (length stem) ?base = [] \<or> ?base = ''..'' then []
                           else CHR ''.'' # e)"
    unfolding extOfBase_def Let_def tw using dot len by simp
  with assms(1) nd show ?thesis by simp
qed

lemma endsWith_split: "endsWith s p \<Longrightarrow> s = take (length s - length p) s @ p"
  unfolding endsWith_def using append_take_drop_id[of "length s - length p" s] by simp

lemma matchesFileName_ext:
  assumes "matchesFileName base"
  shows "extOfBase base = ''.md'' \<or> extOfBase base = ''.html''"
proof -
  from assms have nd: "\<not> startsWith base ''.''"
    and e: "endsWith base ''.md'' \<or> endsWith base ''.html''"
    by (simp_all add: matchesFileName_def)
  have ext: "extOfBase base = CHR ''.'' # x"
    if w: "endsWith base (CHR ''.'' # x)" and x: "CHR ''.'' \<notin> set x" "x \<noteq> []" for x
  proof -
    define stem where "stem = take (length base - length (CHR ''.'' # x)) base"
    from endsWith_split[OF w] have b: "base = stem @ CHR ''.'' # x" unfolding stem_def .
    have "stem \<noteq> []"
    proof
      assume "stem = []"
      with b have "base = CHR ''.'' # x" by simp
      with nd show False by (simp add: startsWith_def)
    qed
    from extOfBase_suffix[OF this x] b show ?thesis by simp
  qed
  from e show ?thesis
  proof
    assume "endsWith base ''.md''"
    from ext[of "''md''"] this show ?thesis by simp
  next
    assume "endsWith base ''.html''"
    from ext[of "''html''"] this show ?thesis by simp
  qed
qed

lemma globFiles_ext:
  "f \<in> set (globFiles candidates) \<Longrightarrow> path_extname f = ''.md'' \<or> path_extname f = ''.html''"
  using matchesFileName_ext[of "path_basename f"] by (simp add: globFiles_def path_extname_def)

text \<open>
  The builder has a branch that warns of an unsupported file type and skips the file. It
  takes every extension other than \<open>.md\<close> for HTML, so the branch is never taken: no file
  is skipped there. Files of other extensions are kept out by the patterns of the glob.
\<close>

lemma unsupported_branch_unreachable:
  "processItem env cfg f t \<noteq> Inl UnsupportedFileType"
  by (auto simp: processItem_def readContent_def Let_def fileTypeOf_def
           split: sum.splits option.splits if_splits prod.splits jsval.splits)

lemma md_content:
  assumes "processItem env cfg f t = Inr item" and "path_extname f = ''.md''"
  shows "fileType item = Markdown
       \<and> (\<exists>parsed. parseMarkdownFile env f = Some parsed
             \<and> frontMatter item = pm_frontMatter parsed
             \<and> rawContent item = markdownContent parsed
             \<and> htmlContent item = pm_htmlContent parsed)"
proof -
  have lc: "toLowerCase ''.md'' = ''.md''" by code_simp
  then have ft: "fileTypeOf f = Markdown" by (simp add: fileTypeOf_def assms(2))
  from processItem_content[OF assms(1)] ft
  have "readContent env f Markdown = Inr (frontMatter item, rawContent item, htmlContent item)"
    by simp
  then have "\<exists>parsed. parseMarkdownFile env f = Some parsed
             \<and> frontMatter item = pm_frontMatter parsed
             \<and> rawContent item = markdownContent parsed
             \<and> htmlContent item = pm_htmlContent parsed"
    by (auto simp: readContent_def split: option.splits)
  with processItem_fields(3)[OF assms(1)] ft show ?thesis by simp
qed

lemma html_content:
  assumes "processItem env cfg f t = Inr item" and "path_extname f = ''.html''"
  shows "fileType item = Html \<and> frontMatter item = Map.empty
       \<and> (\<exists>raw. readFile env f = Some raw \<and> rawContent item = raw \<and> htmlContent item = raw)"
proof -
  have lc: "toLowerCase ''.html'' \<noteq> ''.md''" by code_simp
  then have ft: "fileTypeOf f = Html" by (simp add: fileTypeOf_def assms(2))
  from processItem_content[OF assms(1)] ft
  have "readContent env f Html = Inr (frontMatter item, rawContent item, htmlContent item)"
    by simp
  then have "frontMatter item = Map.empty
       \<and> (\<exists>raw. readFile env f = Some raw \<and> rawContent item = raw \<and> htmlContent item = raw)"
    by (auto simp: readContent_def split: option.splits)
  with processItem_fields(3)[OF assms(1)] ft show ?thesis by simp
qed

text \<open>
  Claim C9: every item of the result comes from a file that the glob returned; its source
  has the extension \<open>.md\<close>, and then the item is Markdown and its front matter, raw content
  and HTML are the ones the Markdown parser gave for the file, or it has the extension
  \<open>.html\<close>, and then the item is HTML, its front matter is empty and its raw content and
  its HTML are the text of the file. A file with any other extension is not among the
  files the glob returns, is the source of no item of the three collections, and the
  result is the one the other files give.
\<close>

theorem file_type_by_extension:
  "(\<forall>item \<in> set (posts (processContent env cfg (globFiles candidates)))
              \<union> set (pages (processContent env cfg (globFiles candidates)))
              \<union> set (drafts (processContent env cfg (globFiles candidates))).
       sourcePath item \<in> set candidates
       \<and> (path_extname (sourcePath item) = ''.md'' \<and> fileType item = Markdown
            \<and> (\<exists>parsed. parseMarkdownFile env (sourcePath item) = Some parsed
                  \<and> frontMatter item = pm_frontMatter parsed
                  \<and> rawContent item = markdownContent parsed
                  \<and> htmlContent item = pm_htmlContent parsed)
          \<or> path_extname (sourcePath item) = ''.html'' \<and> fileType item = Html
            \<and> frontMatter item = Map.empty
            \<and> (\<exists>raw. readFile env (sourcePath item) = Some raw
                  \<and> rawContent item = raw \<and> htmlContent item = raw)))
   \<and> (path_extname f \<noteq> ''.md'' \<and> path_extname f \<noteq> ''.html'' \<longrightarrow>
        f \<notin> set (globFiles candidates)
        \<and> (\<forall>item \<in> set (posts (processContent env cfg (globFiles candidates)))
                    \<union> set (pages (processContent env cfg (globFiles candidates)))
                    \<union> set (drafts (processContent env cfg (globFiles candidates))).
              sourcePath item \<noteq> f)
        \<and> processContent env cfg (globFiles (before @ f # after))
            = processContent env cfg (globFiles (before @ after)))"
proof -
  let ?R = "processContent env cfg (globFiles candidates)"
  have src: "sourcePath item \<in> set (globFiles candidates)
           \<and> (\<exists>t. processItem env cfg (sourcePath item) t = Inr item)"
    if "item \<in> set (posts ?R) \<union> set (pages ?R) \<union> set (drafts ?R)" for item
  proof -
    from item_origin[OF that] obtain g found where
      g: "g \<in> set (globFiles candidates)" "processItem env cfg g (toItemType found) = Inr item"
      by blast
    from processItem_fields(1)[OF g(2)] g show ?thesis by auto
  qed
  have a: "sourcePath item \<in> set candidates
       \<and> (path_extname (sourcePath item) = ''.md'' \<and> fileType item = Markdown
            \<and> (\<exists>parsed. parseMarkdownFile env (sourcePath item) = Some parsed
                  \<and> frontMatter item = pm_frontMatter parsed
                  \<and> rawContent item = markdownContent parsed
                  \<and> htmlContent item = pm_htmlContent parsed)
          \<or> path_extname (sourcePath item) = ''.html'' \<and> fileType item = Html
            \<and> frontMatter item = Map.empty
            \<and> (\<exists>raw. readFile env (sourcePath item) = Some raw
                  \<and> rawContent item = raw \<and> htmlContent item = raw))"
    if i: "item \<in> set (posts ?R) \<union> set (pages ?R) \<union> set (drafts ?R)" for item
  proof -
    from src[OF i] obtain t where
      m: "sourcePath item \<in> set (globFiles candidates)"
      and g: "processItem env cfg (sourcePath item) t = Inr item" by blast
    from m have c: "sourcePath item \<in> set candidates" by (simp add: globFiles_def)
    from globFiles_ext[OF m] show ?thesis
    proof
      assume e: "path_extname (sourcePath item) = ''.md''"
      from md_content[OF g e] e c show ?thesis by blast
    next
      assume e: "path_extname (sourcePath item) = ''.html''"
      from html_content[OF g e] e c show ?thesis by blast
    qed
  qed
  have b: "f \<notin> set (globFiles candidates)
        \<and> (\<forall>item \<in> set (posts ?R) \<union> set (pages ?R) \<union> set (drafts ?R). sourcePath item \<noteq> f)
        \<and> processContent env cfg (globFiles (before @ f # after))
            = processContent env cfg (globFiles (before @ after))"
    if o: "path_extname f \<noteq> ''.md'' \<and> path_extname f \<noteq> ''.html''"
  proof -
    from o globFiles_ext[of f] have n: "f \<notin> set (globFiles xs)" for xs by blast
    from n[of "[f]"] have "\<not> matchesFileName (path_basename f)"
      by (auto simp: globFiles_def split: if_splits)
    then have e: "globFiles (before @ f # after) = globFiles (before @ after)"
      by (simp add: globFiles_def)
    from n[of candidates] src have "\<forall>item \<in> set (posts ?R) \<union> set (pages ?R) \<union> set (drafts ?R).
              sourcePath item \<noteq> f" by blast
    with n[of candidates] e show ?thesis by simp
  qed
  from a b show ?thesis by blast
qed

theorem file_type_by_extension_witness:
  "globFiles [''/site/pages/notes.txt'', ''/site/pages/about.md'', ''/site/pages/.hidden.md'',
              ''/site/pages/team.html'', ''/site/pages/README'']
     = [''/site/pages/about.md'', ''/site/pages/team.html'']
   \<and> map (\<lambda>i. (sourcePath i, fileType i, rawContent i, htmlContent i))
        (pages (processContent exampleEnv exampleConfig
           (globFiles [''/site/pages/notes.txt'', ''/site/pages/about.md'',
                       ''/site/pages/.hidden.md'', ''/site/pages/team.html'',
                       ''/site/pages/README''])))
     = [(''/site/pages/about.md'', Markdown, ''text'', ''<p>text</p>''),
        (''/site/pages/team.html'', Html, ''<p>html</p>'', ''<p>html</p>'')]
   \<and> list_all (\<lambda>i. sourcePath i \<noteq> ''/site/pages/notes.txt''
                  \<and> (fileType i = Markdown \<or> fileType i = Html \<and> frontMatter i = Map.empty))
        (pages (processContent exampleEnv exampleConfig
           (globFiles [''/site/pages/notes.txt'', ''/site/pages/about.md'',
                       ''/site/pages/.hidden.md'', ''/site/pages/team.html'',
                       ''/site/pages/README''])))
   \<and> processContent exampleEnv exampleConfig
        (globFiles ([''/site/pages/about.md''] @ ''/site/pages/notes.txt'' # [''/site/pages/team.html'']))
     = processContent exampleEnv exampleConfig
        (globFiles ([''/site/pages/about.md''] @ [''/site/pages/team.html'']))"
proof -
  let ?c = "[''/site/pages/notes.txt'', ''/site/pages/about.md'', ''/site/pages/.hidden.md'',
             ''/site/pages/team.html'', ''/site/pages/README'']"
  let ?R = "processContent exampleEnv exampleConfig (globFiles ?c)"
  have h1: "globFiles ?c = [''/site/pages/about.md'', ''/site/pages/team.html'']" by code_simp
  have h2: "map (\<lambda>i. (sourcePath i, fileType i, rawContent i, htmlContent i)) (pages ?R)
     = [(''/site/pages/about.md'', Markdown, ''text'', ''<p>text</p>''),
        (''/site/pages/team.html'', Html, ''<p>html</p>'', ''<p>html</p>'')]" by code_simp
  have o: "path_extname ''/site/pages/notes.txt'' \<noteq> ''.md''
           \<and> path_extname ''/site/pages/notes.txt'' \<noteq> ''.html''" by code_simp
  note t = file_type_by_extension[of exampleEnv exampleConfig ?c "''/site/pages/notes.txt''"
             "[''/site/pages/about.md'']" "[''/site/pages/team.html'']"]
  have "sourcePath i \<noteq> ''/site/pages/notes.txt''
        \<and> (fileType i = Markdown \<or> fileType i = Html \<and> frontMatter i = Map.empty)"
    if "i \<in> set (pages ?R)" for i
    using t o that by blast
  then have h3: "list_all (\<lambda>i. sourcePath i \<noteq> ''/site/pages/notes.txt''
                  \<and> (fileType i = Markdown \<or> fileType i = Html \<and> frontMatter i = Map.empty))
                 (pages ?R)"
    by (simp add: list_all_iff)
  from t o have h4: "processContent exampleEnv exampleConfig
        (globFiles ([''/site/pages/about.md''] @ ''/site/pages/notes.txt'' # [''/site/pages/team.html'']))
     = processContent exampleEnv exampleConfig
        (globFiles ([''/site/pages/about.md''] @ [''/site/pages/team.html'']))"
    by blast
  from h1 h2 h3 h4 show ?thesis by blast
qed

subsection \<open>The directory a file was found in (claim C6)\<close>

text \<open>
  What holds of the types: a file under the posts root is found as a post, and the three
  collections of a result share no item.
\<close>

lemma under_posts_root_is_post:
  assumes "isUnder (paths_posts cfg) f"
  shows "classify cfg f = Some FoundPost"
proof -
  let ?root = "paths_posts cfg"
  from assms have a: "take (length (?root @ ''/'')) f = ?root @ ''/''"
    by (simp add: isUnder_def startsWith_def)
  have "take (length ?root) f = take (length ?root) (take (length (?root @ ''/'')) f)"
    by (simp add: min_def)
  also have "\<dots> = ?root" by (simp only: a) simp
  finally have "startsWith f ?root" by (simp add: startsWith_def)
  then show ?thesis by (simp add: classify_def)
qed

lemma collections_disjoint:
  "set (posts (processContent env cfg files)) \<inter> set (pages (processContent env cfg files)) = {}
   \<and> set (posts (processContent env cfg files)) \<inter> set (drafts (processContent env cfg files)) = {}
   \<and> set (pages (processContent env cfg files)) \<inter> set (drafts (processContent env cfg files)) = {}"
proof -
  have p: "date item \<noteq> None \<and> \<not> isDraft item"
    if "item \<in> set (posts (processContent env cfg files))" for item
  proof -
    from posts_origin[OF that] obtain f where f: "processItem env cfg f Post = Inr item" by blast
    from processItem_fields(4,8)[OF f] show ?thesis by simp
  qed
  have g: "date item = None \<and> \<not> isDraft item"
    if "item \<in> set (pages (processContent env cfg files))" for item
  proof -
    from pages_origin[OF that] obtain f where f: "processItem env cfg f Page = Inr item" by blast
    from processItem_fields(4,8)[OF f] show ?thesis by simp
  qed
  have d: "isDraft item"
    if "item \<in> set (drafts (processContent env cfg files))" for item
  proof -
    from drafts_origin[OF that] obtain f where f: "processItem env cfg f Draft = Inr item" by blast
    from processItem_fields(4)[OF f] show ?thesis by simp
  qed
  from p g d show ?thesis by blast
qed

text \<open>
  Claim C6 gives a file the type of the root directory it is under, posts before drafts
  before pages. The generator compares the path with the root as strings, so a drafts
  root whose name continues the name of the posts root is taken for the posts root: with
  the posts in \<open>/site/content\<close> and the drafts in \<open>/site/content-drafts\<close>, the file
  \<open>/site/content-drafts/note.md\<close> is under the drafts root and not under the posts root,
  and it is found as a post and placed in the posts.
\<close>

theorem sibling_directory_found_as_post:
  "isUnder (paths_drafts siblingConfig) ''/site/content-drafts/note.md''
   \<and> \<not> isUnder (paths_posts siblingConfig) ''/site/content-drafts/note.md''
   \<and> classify siblingConfig ''/site/content-drafts/note.md'' = Some FoundPost
   \<and> map permalink (posts (processContent exampleEnv siblingConfig
         [''/site/content-drafts/note.md''])) = [''/blog/note/'']
   \<and> drafts (processContent exampleEnv siblingConfig [''/site/content-drafts/note.md'']) = []"
  by code_simp

subsection \<open>Posts are Markdown (claim C10)\<close>

text \<open>
  Claim C10: every post of the result was built from a Markdown file. A file of the
  other type gets the empty front matter, which has no date, so as a post it yields no
  item, and a file found as a post that is not Markdown is the source of no item of any
  collection.
\<close>

theorem posts_are_markdown:
  "(\<forall>p \<in> set (posts (processContent env cfg files)). fileType p = Markdown)
   \<and> (\<forall>fm raw html. readContent env f Html = Inr (fm, raw, html) \<longrightarrow> fm = Map.empty)
   \<and> (fileTypeOf f \<noteq> Markdown \<longrightarrow> (\<exists>r. processItem env cfg f Post = Inl r))
   \<and> (classify cfg f = Some FoundPost \<and> fileTypeOf f \<noteq> Markdown \<longrightarrow>
        (\<forall>item \<in> set (posts (processContent env cfg files))
                    \<union> set (pages (processContent env cfg files))
                    \<union> set (drafts (processContent env cfg files)). sourcePath item \<noteq> f))"
proof -
  have a: "\<forall>p \<in> set (posts (processContent env cfg files)). fileType p = Markdown"
  proof
    fix p assume "p \<in> set (posts (processContent env cfg files))"
    from posts_origin[OF this] obtain g where g: "processItem env cfg g Post = Inr p" by blast
    have "fileTypeOf g = Markdown"
    proof (rule ccontr)
      assume "fileTypeOf g \<noteq> Markdown"
      from html_post_dropped[OF this, of env cfg] g show False by simp
    qed
    with processItem_fields(3)[OF g] show "fileType p = Markdown" by simp
  qed
  have b: "\<forall>fm raw html. readContent env f Html = Inr (fm, raw, html) \<longrightarrow> fm = Map.empty"
    using readContent_html_empty by blast
  have c: "fileTypeOf f \<noteq> Markdown \<longrightarrow> (\<exists>r. processItem env cfg f Post = Inl r)"
    using html_post_dropped by blast
  have d: "classify cfg f = Some FoundPost \<and> fileTypeOf f \<noteq> Markdown \<longrightarrow>
        (\<forall>item \<in> set (posts (processContent env cfg files))
                    \<union> set (pages (processContent env cfg files))
                    \<union> set (drafts (processContent env cfg files)). sourcePath item \<noteq> f)"
  proof (intro impI ballI)
    fix item
    assume h: "classify cfg f = Some FoundPost \<and> fileTypeOf f \<noteq> Markdown"
      and m: "item \<in> set (posts (processContent env cfg files))
                    \<union> set (pages (processContent env cfg files))
                    \<union> set (drafts (processContent env cfg files))"
    from h html_post_dropped[of f env cfg] obtain r where "processItem env cfg f Post = Inl r"
      by blast
    with not_built_not_present[of cfg f FoundPost env r item files] h m
    show "sourcePath item \<noteq> f" by simp
  qed
  from a b c d show ?thesis by blast
qed

theorem posts_are_markdown_witness:
  "map fileType (posts (processContent exampleEnv exampleConfig
       [''/site/posts/2024-01-15-hello-world.md'', ''/site/posts/gallery.html'']))
     = [Markdown]
   \<and> list_all (\<lambda>p. fileType p = Markdown)
        (posts (processContent exampleEnv exampleConfig
           [''/site/posts/2024-01-15-hello-world.md'', ''/site/posts/gallery.html'']))
   \<and> (\<exists>r. processItem exampleEnv exampleConfig ''/site/posts/gallery.html'' Post = Inl r)
   \<and> list_all (\<lambda>item. sourcePath item \<noteq> ''/site/posts/gallery.html'')
        (posts (processContent exampleEnv exampleConfig
           [''/site/posts/2024-01-15-hello-world.md'', ''/site/posts/gallery.html'']))"
proof -
  have h1: "fileTypeOf ''/site/posts/gallery.html'' \<noteq> Markdown" by code_simp
  have h2: "classify exampleConfig ''/site/posts/gallery.html'' = Some FoundPost" by code_simp
  have h3: "map fileType (posts (processContent exampleEnv exampleConfig
       [''/site/posts/2024-01-15-hello-world.md'', ''/site/posts/gallery.html'']))
     = [Markdown]" by code_simp
  from posts_are_markdown[of exampleEnv exampleConfig
         "[''/site/posts/2024-01-15-hello-world.md'', ''/site/posts/gallery.html'']"
         "''/site/posts/gallery.html''"] h1 h2 h3
  show ?thesis by (simp add: list_all_iff)
qed

subsection \<open>Characters, splitting and the path name of a URL\<close>

lemma slugChar_code: "slugChar c \<Longrightarrow>
   (97 \<le> (of_char c :: nat) \<and> (of_char c :: nat) \<le> 122) \<or> (48 \<le> (of_char c :: nat) \<and> (of_char c :: nat) \<le> 57) \<or> (of_char c :: nat) = 45"
  by (auto simp: slugChar_def isLower_def isDigit_def less_eq_char_def)

lemma slugChar_plain:
  assumes "slugChar c"
  shows "\<not> isUrlSep c" "\<not> isQueryOrFragment c" "\<not> inPathEncodeSet c" "\<not> isC0OrSpace c"
    "\<not> isTabOrNewline c" "c \<noteq> CHR ''.''" "c \<noteq> CHR ''%''" "\<not> isUpper c" "c \<noteq> CHR ''/''" "\<not> isSep c"
  using slugChar_code[OF assms]
  by (auto simp: isUrlSep_def isQueryOrFragment_def inPathEncodeSet_def isC0OrSpace_def
        isTabOrNewline_def isUpper_def isSep_def less_eq_char_def less_char_def)

lemma toLowerChar_other: "\<not> isUpper c \<Longrightarrow> toLowerChar c = c"
  by (simp add: toLowerChar_def)

lemma splitOn_nonempty: "splitOn P s \<noteq> []"
  by (induction s) (auto split: list.splits)

lemma splitOn_no_sep: "\<forall>c \<in> set s. \<not> P c \<Longrightarrow> splitOn P s = [s]"
  by (induction s) (auto split: list.splits)

lemma splitOn_append_sep:
  "\<forall>c \<in> set a. \<not> P c \<Longrightarrow> P x \<Longrightarrow> splitOn P (a @ x # b) = a # splitOn P b"
  by (induction a) (auto split: list.splits simp: splitOn_nonempty)

lemma splitOn_joinWith:
  "segs \<noteq> [] \<Longrightarrow> \<forall>seg \<in> set segs. \<forall>c \<in> set seg. \<not> P c \<Longrightarrow> P x
     \<Longrightarrow> splitOn P (joinWith [x] segs) = segs"
proof (induction "[x]" segs rule: joinWith.induct)
  case 1
  then show ?case by simp
next
  case (2 s)
  then show ?case by (simp add: splitOn_no_sep)
next
  case (3 s y ys)
  then show ?case by (simp add: splitOn_append_sep)
qed

lemma concat_map_slash:
  "segs \<noteq> [] \<Longrightarrow> concat (map (\<lambda>seg. CHR ''/'' # seg) segs) = CHR ''/'' # joinWith ''/'' segs"
  by (induction "''/''" segs rule: joinWith.induct) simp_all

lemma percentEncode_plain:
  "\<forall>c \<in> set seg. \<not> inPathEncodeSet c \<Longrightarrow> concat (map percentEncode seg) = seg"
  by (induction seg) (simp_all add: percentEncode_def)

lemma pathState_plain:
  "segs \<noteq> [] \<Longrightarrow> \<forall>seg \<in> set segs. \<not> isDoubleDot seg \<and> \<not> isSingleDot seg
     \<Longrightarrow> pathState segs acc = acc @ segs"
  by (induction segs acc rule: pathState.induct) simp_all

lemma toLowerCase_slug: "list_all slugChar seg \<Longrightarrow> toLowerCase seg = seg"
  by (induction seg) (simp_all add: toLowerCase_def toLowerChar_other slugChar_plain)

lemma slug_not_dot:
  assumes "list_all slugChar seg"
  shows "\<not> isDoubleDot seg \<and> \<not> isSingleDot seg"
proof -
  have "CHR ''.'' \<notin> set seg" "CHR ''%'' \<notin> set seg"
    using assms slugChar_plain(6,7) by (auto simp: list_all_iff)
  then show ?thesis
    by (auto simp: isDoubleDot_def isSingleDot_def toLowerCase_slug[OF assms])
qed

text \<open>The segments the generator joins: slug characters only, none empty but perhaps the last.\<close>

lemma joinWith_chars:
  "c \<in> set (joinWith sep segs) \<Longrightarrow> c \<in> set sep \<or> (\<exists>seg \<in> set segs. c \<in> set seg)"
  by (induction sep segs rule: joinWith.induct) auto

lemma joinWith_hd:
  "segs \<noteq> [] \<Longrightarrow> hd segs \<noteq> [] \<Longrightarrow> joinWith sep segs \<noteq> [] \<and> hd (joinWith sep segs) = hd (hd segs)"
  by (induction sep segs rule: joinWith.induct) auto

lemma dropWhile_id: "xs = [] \<or> \<not> P (hd xs) \<Longrightarrow> dropWhile P xs = xs"
  by (cases xs) auto

lemma pathnameOf_slug:
  assumes "segs \<noteq> []" and "\<forall>seg \<in> set segs. list_all slugChar seg"
  shows "pathnameOf (joinWith ''/'' segs) = CHR ''/'' # joinWith ''/'' segs"
proof -
  let ?j = "joinWith ''/'' segs"
  have chars: "c = CHR ''/'' \<or> slugChar c" if "c \<in> set ?j" for c
    using joinWith_chars[OF that] assms(2) by (auto simp: list_all_iff)
  have "\<not> isQueryOrFragment c" if "c \<in> set ?j" for c
    using chars[OF that] slugChar_plain(2)[of c] by (auto simp: isQueryOrFragment_def)
  then have tw: "takeWhile (\<lambda>c. \<not> isQueryOrFragment c) ?j = ?j" by (simp add: takeWhile_eq_all_conv)
  have nosep: "\<forall>seg \<in> set segs. \<forall>c \<in> set seg. \<not> isUrlSep c"
    using assms(2) slugChar_plain(1) by (auto simp: list_all_iff)
  have sl: "isUrlSep (CHR ''/'')" by (simp add: isUrlSep_def)
  have sp: "splitOn isUrlSep ?j = segs"
    by (rule splitOn_joinWith[OF assms(1) nosep sl])
  have "concat (map percentEncode seg) = seg" if "seg \<in> set segs" for seg
    using that assms(2) slugChar_plain(3) by (intro percentEncode_plain) (auto simp: list_all_iff)
  then have enc: "map (\<lambda>seg. concat (map percentEncode seg)) segs = segs"
    by (simp add: map_idI)
  have "\<forall>seg \<in> set segs. \<not> isDoubleDot seg \<and> \<not> isSingleDot seg"
    using slug_not_dot assms(2) by blast
  from pathState_plain[OF assms(1) this, of "[]"] have ps: "pathState segs [] = segs" by simp
  show ?thesis unfolding pathnameOf_def tw sp enc ps by (rule concat_map_slash[OF assms(1)])
qed


lemma butlast_hd_nonempty:
  assumes "\<forall>seg \<in> set (butlast segs). seg \<noteq> []" and "joinWith sep segs \<noteq> []" and "sep \<noteq> []"
  shows "segs \<noteq> [] \<and> hd segs \<noteq> []"
  using assms by (induction sep segs rule: joinWith.induct) auto

lemma dropWhile_none: "\<forall>c \<in> set xs. \<not> P c \<Longrightarrow> dropWhile P xs = xs"
  by (cases xs) auto

lemma strip_none: "\<forall>c \<in> set xs. \<not> P c \<Longrightarrow> rev (dropWhile P (rev (dropWhile P xs))) = xs"
  by (simp add: dropWhile_none)

lemma urlPathname_slug:
  assumes "\<forall>seg \<in> set segs. list_all slugChar seg" and "\<forall>seg \<in> set (butlast segs). seg \<noteq> []"
  shows "urlPathname (CHR ''/'' # joinWith ''/'' segs) = Some (CHR ''/'' # joinWith ''/'' segs)"
proof -
  let ?j = "joinWith ''/'' segs"
  have chars: "c = CHR ''/'' \<or> slugChar c" if "c \<in> set (CHR ''/'' # ?j)" for c
    using that joinWith_chars[of c "''/''" segs] assms(1) by (auto simp: list_all_iff)
  have nc0: "\<not> isC0OrSpace c" if "c \<in> set (CHR ''/'' # ?j)" for c
    using chars[OF that] slugChar_plain(4)[of c] by (auto simp: isC0OrSpace_def less_eq_char_def)
  have ntab: "\<not> isTabOrNewline c" if "c \<in> set (CHR ''/'' # ?j)" for c
    using chars[OF that] slugChar_plain(5)[of c] by (auto simp: isTabOrNewline_def)
  have strip: "rev (dropWhile isC0OrSpace (rev (dropWhile isC0OrSpace (CHR ''/'' # ?j))))
                 = CHR ''/'' # ?j"
    by (rule strip_none) (use nc0 in blast)
  have filt: "filter (\<lambda>c. \<not> isTabOrNewline c) (CHR ''/'' # ?j) = CHR ''/'' # ?j"
    using ntab by (simp only: filter_id_conv) blast
  have s: "isUrlSep (CHR ''/'')" by (simp add: isUrlSep_def)
  have unf: "urlPathname (CHR ''/'' # ?j) =
     (case ?j of [] \<Rightarrow> Some (pathnameOf [])
      | d # _ \<Rightarrow> if isUrlSep d then
           (let auth = dropWhile isUrlSep ?j;
                authority = takeWhile (\<lambda>c. \<not> isUrlSep c \<and> \<not> isQueryOrFragment c) auth;
                after = dropWhile (\<lambda>c. \<not> isUrlSep c \<and> \<not> isQueryOrFragment c) auth
            in if validAuthority authority
               then Some (pathnameOf (case after of [] \<Rightarrow> []
                      | e # others \<Rightarrow> if isUrlSep e then others else after))
               else None)
         else Some (pathnameOf ?j))"
    unfolding urlPathname_def strip filt Let_def using s by simp
  show ?thesis
  proof (cases "?j")
    case Nil
    have e: "pathnameOf [] = ''/''" by (simp add: pathnameOf_def)
    from unf show ?thesis by (simp add: Nil e)
  next
    case (Cons d rest)
    then have jne: "?j \<noteq> []" by simp
    from butlast_hd_nonempty[OF assms(2) jne] have ne: "segs \<noteq> []" and hdne: "hd segs \<noteq> []"
      by simp_all
    from joinWith_hd[OF ne hdne, of "''/''"] Cons have "d = hd (hd segs)" by simp
    moreover have "hd (hd segs) \<in> set (hd segs)" using hdne by simp
    moreover have "hd segs \<in> set segs" using ne by simp
    ultimately have "slugChar d" using assms(1) by (auto simp: list_all_iff)
    then have nd: "\<not> isUrlSep d" by (rule slugChar_plain(1))
    have pn: "pathnameOf (d # rest) = CHR ''/'' # d # rest"
      using pathnameOf_slug[OF ne assms(1)] Cons by simp
    from unf nd show ?thesis by (simp add: Cons pn)
  qed
qed

text \<open>
  The authority of an input, on examples: a page directory whose name starts with a
  backslash is read as a host, and a host with a space in it makes the parser fail.
\<close>

lemma urlPathname_authority_examples:
  "urlPathname (''/'' @ [CHR 0x5C] @ ''foo/x'') = Some ''/x''"
  "urlPathname (''/'' @ [CHR 0x5C] @ ''foo bar/x'') = None"
  "urlPathname ''//user@host:80/p'' = Some ''/p''"
  "urlPathname ''//host:99999/p'' = None"
  "urlPathname ''//1.2.3.4/p'' = Some ''/p''"
  "urlPathname ''//1.2.3.4.5/p'' = None"
  "urlPathname ''//[::1]/p'' = Some ''/p''"
  "urlPathname ''//[::1/p'' = None"
  "urlPathname ''//a%20b/p'' = None"
  by code_simp+






lemma toLowerChar_upper: "isUpper c \<Longrightarrow> isLower (toLowerChar c)"
  by (auto simp: toLowerChar_def isUpper_def isLower_def less_eq_char_def)

lemma slugChar_toLower:
  "isAlnum c \<or> c = CHR ''-'' \<Longrightarrow> slugChar (toLowerChar c)"
  by (cases "isUpper c") (auto simp: toLowerChar_upper toLowerChar_other slugChar_def isAlnum_def)

lemma replaceSpaces_chars:
  "c \<in> set (replaceSpaces b s) \<Longrightarrow> c = CHR ''-'' \<or> (c \<in> set s \<and> \<not> isSpace c)"
  by (induction b s rule: replaceSpaces.induct) (auto split: if_splits)

lemma set_trim: "set (trim s) \<subseteq> set s"
proof -
  have "set (trim s) = set (dropWhile isSpace (rev (dropWhile isSpace s)))" by (simp add: trim_def)
  also have "\<dots> \<subseteq> set (rev (dropWhile isSpace s))" by (rule set_dropWhileD[THEN subsetI]) 
  also have "\<dots> \<subseteq> set s" using set_dropWhileD[of _ isSpace s] by auto
  finally show ?thesis .
qed

lemma slugify_chars: "list_all slugChar (slugify s)"
proof -
  have "slugChar c" if "c \<in> set (slugify s)" for c
  proof -
    from that obtain d where d: "c = toLowerChar d"
      "d \<in> set (replaceSpaces False (trim (filter strictChar (concat (map appendChar s)))))"
      by (auto simp: slugify_def toLowerCase_def)
    from replaceSpaces_chars[OF d(2)] set_trim
    have "d = CHR ''-'' \<or> (strictChar d \<and> \<not> isSpace d)" by fastforce
    then have "isAlnum d \<or> d = CHR ''-''" by (auto simp: strictChar_def)
    with d(1) show ?thesis by (simp add: slugChar_toLower)
  qed
  then show ?thesis by (simp add: list_all_iff)
qed

lemma endsWith_single: "s \<noteq> [] \<Longrightarrow> endsWith s [c] = (last s = c)"
  by (cases s rule: rev_cases) (auto simp: endsWith_def)


lemma join_not_startsWith_slash:
  assumes "\<forall>seg \<in> set segs. list_all slugChar seg" and "\<forall>seg \<in> set (butlast segs). seg \<noteq> []"
  shows "\<not> startsWith (joinWith ''/'' segs) ''/''"
proof (cases "joinWith ''/'' segs")
  case Nil
  then show ?thesis by (simp add: startsWith_def)
next
  case (Cons d rest)
  then have jne: "joinWith ''/'' segs \<noteq> []" by simp
  from butlast_hd_nonempty[OF assms(2) jne] have ne: "segs \<noteq> []" and hdne: "hd segs \<noteq> []"
    by simp_all
  from joinWith_hd[OF ne hdne, of "''/''"] Cons have "d = hd (hd segs)" by simp
  moreover have "hd (hd segs) \<in> set (hd segs)" using hdne by simp
  moreover have "hd segs \<in> set segs" using ne by simp
  ultimately have "slugChar d" using assms(1) by (auto simp: list_all_iff)
  then have "d \<noteq> CHR ''/''" by (rule slugChar_plain(9))
  with Cons show ?thesis by (simp add: startsWith_def)
qed


lemma generatePermalink_ok:
  assumes "resolveSlug p fm t = Inr slug"
    and "\<forall>seg \<in> set (pathSegments cfg p t slug). list_all slugChar seg"
    and "\<forall>seg \<in> set (butlast (pathSegments cfg p t slug)). seg \<noteq> []"
  shows "generatePermalink cfg p fm t
           = Inr (finalPermalink p slug (CHR ''/'' # joinWith ''/'' (pathSegments cfg p t slug)))"
proof -
  let ?segs = "pathSegments cfg p t slug"
  have a: "\<not> startsWith (joinWith ''/'' ?segs) ''/''"
    by (rule join_not_startsWith_slash[OF assms(2,3)])
  note b = urlPathname_slug[OF assms(2,3)]
  show ?thesis by (simp add: generatePermalink_def assms(1) Let_def a b)
qed

lemma resolveSlug_chars: "resolveSlug p fm t = Inr slug \<Longrightarrow> list_all slugChar slug"
  by (auto simp: resolveSlug_def slugifyValue_def slugify_chars split: if_splits jsval.splits)

lemma blog_drafts_chars: "list_all slugChar ''blog''" "list_all slugChar ''drafts''"
  by (simp_all add: slugChar_def isLower_def less_eq_char_def)

lemma pathSegments_post_draft:
  assumes "t \<noteq> Page" and "list_all slugChar slug"
  shows "(\<forall>seg \<in> set (pathSegments cfg p t slug). list_all slugChar seg)
       \<and> (\<forall>seg \<in> set (butlast (pathSegments cfg p t slug)). seg \<noteq> [])"
proof -
  obtain w where w: "pathSegments cfg p t slug = [w, slug]" "list_all slugChar w" "w \<noteq> []"
  proof (cases t)
    case Post
    have "pathSegments cfg p t slug = [''blog'', slug]" by (simp add: pathSegments_def Post)
    then show ?thesis by (rule that[OF _ blog_drafts_chars(1)]) simp
  next
    case Page
    with assms(1) show ?thesis by simp
  next
    case Draft
    have "pathSegments cfg p t slug = [''drafts'', slug]" by (simp add: pathSegments_def Draft)
    then show ?thesis by (rule that[OF _ blog_drafts_chars(2)]) simp
  qed
  show ?thesis unfolding w(1) using w(2,3) assms(2) by simp
qed


subsection \<open>The shape of a permalink (claim C1)\<close>













subsection \<open>The order of the collections (claim C3)\<close>























subsection \<open>Drafts are built\<close>

lemma resolveSlug_usable:
  assumes "\<not> truthy (fmGet fm ''slug'') \<or> (\<exists>s. fmGet fm ''slug'' = JStr s)"
  shows "\<exists>slug. resolveSlug p fm t = Inr slug"
  using assms by (auto simp: resolveSlug_def slugifyValue_def)

lemma draft_built:
  assumes "readContent env f (fileTypeOf f) = Inr (fm, raw, html)"
    and "\<not> truthy (fmGet fm ''slug'') \<or> (\<exists>s. fmGet fm ''slug'' = JStr s)"
  shows "\<exists>item. processItem env cfg f Draft = Inr item \<and> isDraft item \<and> sourcePath item = f
           \<and> frontMatter item = fm"
proof -
  let ?rel = "path_relative (cwd env) (paths_source cfg) f"
  from resolveSlug_usable[OF assms(2)] obtain slug where slug: "resolveSlug ?rel fm Draft = Inr slug"
    by blast
  have sc: "list_all slugChar slug" by (rule resolveSlug_chars[OF slug])
  have "Draft \<noteq> Page" by simp
  from pathSegments_post_draft[OF this sc, of cfg ?rel]
  have "\<exists>link. generatePermalink cfg ?rel fm Draft = Inr link"
    using generatePermalink_ok[OF slug, of cfg] by blast
  then obtain link where link: "generatePermalink cfg ?rel fm Draft = Inr link" by blast
  show ?thesis
    by (simp add: processItem_def Let_def assms(1) link)
qed

lemma draft_never_unpublished: "processItem env cfg f Draft \<noteq> Inl Unpublished"
  by (auto simp: processItem_def Let_def readContent_def
           split: sum.splits option.splits if_splits prod.splits)

lemma unpublished_dropped:
  assumes "readContent env f (fileTypeOf f) = Inr (fm, raw, html)"
    and "fmGet fm ''published'' = JBool False" and "t \<noteq> Draft"
  shows "processItem env cfg f t = Inl Unpublished"
  using assms by (simp add: processItem_def Let_def)

lemma drafts_mono:
  "set (drafts acc) \<subseteq> set (drafts (foldl (processFile env cfg) acc files))"
proof (induction files arbitrary: acc)
  case Nil
  then show ?case by simp
next
  case (Cons f fs)
  have "set (drafts acc) \<subseteq> set (drafts (processFile env cfg acc f))"
    using processFile_cases[of env cfg acc f] by auto
  with Cons[of "processFile env cfg acc f"] show ?case by auto
qed

lemma draft_collected:
  assumes "f \<in> set files" and "classify cfg f = Some FoundDraft"
    and "processItem env cfg f Draft = Inr item"
  shows "item \<in> set (drafts (foldl (processFile env cfg) acc files))"
  using assms(1)
proof (induction files arbitrary: acc)
  case Nil
  then show ?case by simp
next
  case (Cons g gs)
  show ?case
  proof (cases "g = f")
    case True
    from processItem_fields(4)[OF assms(3)] have "isDraft item" by simp
    then have "item \<in> set (drafts (processFile env cfg acc f))"
      by (simp add: processFile_def assms(2,3))
    with drafts_mono[of "processFile env cfg acc f" env cfg gs] True show ?thesis by auto
  next
    case False
    with Cons show ?thesis by simp
  qed
qed

lemma draft_in_result:
  assumes "f \<in> set files" and "classify cfg f = Some FoundDraft"
    and "processItem env cfg f Draft = Inr item"
  shows "item \<in> set (drafts (processContent env cfg files))"
  using draft_collected[OF assms, of "\<lparr> posts = [], pages = [], drafts = [] \<rparr>"]
  by (simp add: processContent_def collectItems_def Let_def set_sortBy)

subsection \<open>The flag \<open>published\<close> (claim C5)\<close>

text \<open>
  Claim C5: a file whose front matter has \<open>published\<close> equal to \<open>false\<close> and that was not
  found as a draft yields no item (the skip of unpublished items), no item of the three
  collections has it as its source, and the result is the one the other files give. A
  file found as a draft is never skipped for the flag: with \<open>published\<close> equal to \<open>false\<close>
  and a slug that is absent or a string (anything else makes \<open>slugify\<close> throw) its item
  is built, is a draft, and is among the drafts of the result.
\<close>

theorem published_flag:
  assumes "readContent env f (fileTypeOf f) = Inr (fm, raw, html)"
    and "fmGet fm ''published'' = JBool False"
  shows "(classify cfg f = Some found \<and> found \<noteq> FoundDraft \<longrightarrow>
            processItem env cfg f (toItemType found) = Inl Unpublished
            \<and> (\<forall>item \<in> set (posts (processContent env cfg files))
                    \<union> set (pages (processContent env cfg files))
                    \<union> set (drafts (processContent env cfg files)). sourcePath item \<noteq> f)
            \<and> processContent env cfg (before @ f # after) = processContent env cfg (before @ after))
       \<and> processItem env cfg f Draft \<noteq> Inl Unpublished
       \<and> (classify cfg f = Some FoundDraft
            \<and> (\<not> truthy (fmGet fm ''slug'') \<or> (\<exists>s. fmGet fm ''slug'' = JStr s)) \<longrightarrow>
            (\<exists>item. processItem env cfg f Draft = Inr item \<and> isDraft item
                 \<and> sourcePath item = f \<and> frontMatter item = fm
                 \<and> (f \<in> set files \<longrightarrow> item \<in> set (drafts (processContent env cfg files)))))"
proof -
  have a: "processItem env cfg f (toItemType found) = Inl Unpublished
            \<and> (\<forall>item \<in> set (posts (processContent env cfg files))
                    \<union> set (pages (processContent env cfg files))
                    \<union> set (drafts (processContent env cfg files)). sourcePath item \<noteq> f)
            \<and> processContent env cfg (before @ f # after) = processContent env cfg (before @ after)"
    if c: "classify cfg f = Some found" and nd: "found \<noteq> FoundDraft"
  proof -
    from nd have "toItemType found \<noteq> Draft" by (cases found) simp_all
    from unpublished_dropped[OF assms this]
    have u: "processItem env cfg f (toItemType found) = Inl Unpublished" .
    have "\<And>acc. processFile env cfg acc f = acc"
      by (rule processFile_skip[OF c u])
    then have s: "processContent env cfg (before @ f # after)
                    = processContent env cfg (before @ after)"
      by (rule processContent_skip)
    from u s not_built_not_present[OF c u] show ?thesis by blast
  qed
  have b: "\<exists>item. processItem env cfg f Draft = Inr item \<and> isDraft item
                 \<and> sourcePath item = f \<and> frontMatter item = fm
                 \<and> (f \<in> set files \<longrightarrow> item \<in> set (drafts (processContent env cfg files)))"
    if c: "classify cfg f = Some FoundDraft"
      and s: "\<not> truthy (fmGet fm ''slug'') \<or> (\<exists>s. fmGet fm ''slug'' = JStr s)"
  proof -
    from draft_built[OF assms(1) s, of cfg] obtain item where
      i: "processItem env cfg f Draft = Inr item" "isDraft item" "sourcePath item = f"
         "frontMatter item = fm" by blast
    from draft_in_result[OF _ c i(1)] i show ?thesis by blast
  qed
  from a b draft_never_unpublished[of env cfg f] show ?thesis by blast
qed


theorem published_flag_witness:
  "processItem exampleEnv exampleConfig ''/site/pages/hidden.md'' Page = Inl Unpublished
   \<and> processContent exampleEnv exampleConfig
        ([''/site/pages/about.md''] @ ''/site/pages/hidden.md'' # [''/site/drafts/wip.md''])
     = processContent exampleEnv exampleConfig
        ([''/site/pages/about.md''] @ [''/site/drafts/wip.md''])
   \<and> (\<exists>item. processItem exampleEnv exampleConfig ''/site/drafts/wip.md'' Draft = Inr item
         \<and> isDraft item
         \<and> item \<in> set (drafts (processContent exampleEnv exampleConfig
               [''/site/pages/about.md'', ''/site/pages/hidden.md'', ''/site/drafts/wip.md''])))
   \<and> map permalink (drafts (processContent exampleEnv exampleConfig
        [''/site/pages/about.md'', ''/site/pages/hidden.md'', ''/site/drafts/wip.md'']))
      = [''/drafts/wip/'']"
proof -
  let ?files = "[''/site/pages/about.md'', ''/site/pages/hidden.md'', ''/site/drafts/wip.md'']"
  have ft1: "fileTypeOf ''/site/pages/hidden.md'' = Markdown" by code_simp
  have r1: "readContent exampleEnv ''/site/pages/hidden.md'' (fileTypeOf ''/site/pages/hidden.md'')
              = Inr (exampleFrontMatter ''/site/pages/hidden.md'', ''text'', ''<p>text</p>'')"
    by (simp add: ft1 readContent_def exampleEnv_def)
  have p1: "fmGet (exampleFrontMatter ''/site/pages/hidden.md'') ''published'' = JBool False"
    by (simp add: fmGet_def exampleFrontMatter_def)
  have c1: "classify exampleConfig ''/site/pages/hidden.md'' = Some FoundPage" by code_simp
  have ft2: "fileTypeOf ''/site/drafts/wip.md'' = Markdown" by code_simp
  have r2: "readContent exampleEnv ''/site/drafts/wip.md'' (fileTypeOf ''/site/drafts/wip.md'')
              = Inr (exampleFrontMatter ''/site/drafts/wip.md'', ''text'', ''<p>text</p>'')"
    by (simp add: ft2 readContent_def exampleEnv_def)
  have p2: "fmGet (exampleFrontMatter ''/site/drafts/wip.md'') ''published'' = JBool False"
    by (simp add: fmGet_def exampleFrontMatter_def)
  have s2: "\<not> truthy (fmGet (exampleFrontMatter ''/site/drafts/wip.md'') ''slug'')"
    by (simp add: fmGet_def exampleFrontMatter_def)
  have c2: "classify exampleConfig ''/site/drafts/wip.md'' = Some FoundDraft" by code_simp
  have m: "''/site/drafts/wip.md'' \<in> set ?files" by simp
  have l: "map permalink (drafts (processContent exampleEnv exampleConfig ?files))
             = [''/drafts/wip/'']" by code_simp
  from published_flag[OF r1 p1, of exampleConfig FoundPage ?files "[''/site/pages/about.md'']"
         "[''/site/drafts/wip.md'']"] c1
  have a: "processItem exampleEnv exampleConfig ''/site/pages/hidden.md'' Page = Inl Unpublished
     \<and> processContent exampleEnv exampleConfig
        ([''/site/pages/about.md''] @ ''/site/pages/hidden.md'' # [''/site/drafts/wip.md''])
     = processContent exampleEnv exampleConfig
        ([''/site/pages/about.md''] @ [''/site/drafts/wip.md''])"
    by simp
  from published_flag[OF r2 p2, of exampleConfig FoundDraft ?files] c2 s2 m
  have b: "\<exists>item. processItem exampleEnv exampleConfig ''/site/drafts/wip.md'' Draft = Inr item
         \<and> isDraft item
         \<and> item \<in> set (drafts (processContent exampleEnv exampleConfig ?files))"
    by blast
  from a b l show ?thesis by blast
qed

subsection \<open>The slug (claim C7)\<close>















subsection \<open>The output path (claim C8)\<close>

lemma plain_no_sep: "plainComponent c \<Longrightarrow> \<forall>x \<in> set c. \<not> isSep x"
  by (simp add: plainComponent_def list_all_iff)

lemma normalize_plain:
  "list_all plainComponent xs \<Longrightarrow> foldl normalizeStep acc xs = acc @ xs"
  by (induction xs arbitrary: acc) (simp_all add: normalizeStep_def plainComponent_def)

lemma pathOf_join: "xs \<noteq> [] \<Longrightarrow> pathOf xs = CHR ''/'' # joinWith ''/'' xs"
  unfolding pathOf_def by (induction "''/''" xs rule: joinWith.induct) simp_all

lemma pathOf_append: "pathOf (xs @ ys) = pathOf xs @ pathOf ys"
  by (simp add: pathOf_def)

lemma joinWith_append:
  "xs \<noteq> [] \<Longrightarrow> ys \<noteq> [] \<Longrightarrow> joinWith sep (xs @ ys) = joinWith sep xs @ sep @ joinWith sep ys"
  by (induction sep xs rule: joinWith.induct) (auto simp: neq_Nil_conv)

text \<open>Resolving a relative path of plain components against a root of plain components.\<close>

lemma path_resolve_plain:
  assumes "outParts \<noteq> []" and "list_all plainComponent outParts"
    and "parts \<noteq> []" and "list_all plainComponent parts"
  shows "path_resolve wd (pathOf outParts) (joinWith ''/'' parts) = pathOf outParts @ pathOf parts"
proof -
  let ?out = "pathOf outParts"
  let ?rel = "joinWith ''/'' parts"
  have out: "?out = CHR ''/'' # joinWith ''/'' outParts"
    by (rule pathOf_join[OF assms(1)])
  have abs: "isAbsolute ?out" by (simp add: out isAbsolute_def isSep_def)
  have hdp: "hd parts \<noteq> []" using assms(3,4) by (cases parts) (simp_all add: plainComponent_def)
  from joinWith_hd[OF assms(3) hdp, of "''/''"]
  have rne: "?rel \<noteq> []" and rhd: "hd ?rel = hd (hd parts)" by simp_all
  have "hd (hd parts) \<in> set (hd parts)" using hdp by simp
  moreover have "plainComponent (hd parts)" using assms(3,4) by (cases parts) simp_all
  ultimately have "\<not> isSep (hd ?rel)" using plain_no_sep rhd by metis
  with rne have nabs: "\<not> isAbsolute ?rel" by (cases ?rel) (simp_all add: isAbsolute_def)
  have all: "list_all plainComponent (outParts @ parts)" using assms(2,4) by simp
  have ne: "outParts @ parts \<noteq> []" using assms(1) by simp
  have full: "?out @ ''/'' @ ?rel = CHR ''/'' # joinWith ''/'' (outParts @ parts)"
    by (simp add: out joinWith_append[OF assms(1,3)])
  have nosep: "\<forall>seg \<in> set (outParts @ parts). \<forall>c \<in> set seg. \<not> isSep c"
    using all plain_no_sep by (auto simp: list_all_iff)
  have sl: "isSep (CHR ''/'')" by (simp add: isSep_def)
  have sp: "splitOn isSep (CHR ''/'' # joinWith ''/'' (outParts @ parts)) = [] # (outParts @ parts)"
    using splitOn_joinWith[OF ne nosep sl] sl by simp
  have np: "normalizeParts ([] # (outParts @ parts)) = outParts @ parts"
    using normalize_plain[OF all, of "[]"] by (simp add: normalizeParts_def normalizeStep_def)
  have "resolveParts wd ?out ?rel = outParts @ parts"
    using abs nabs by (simp only: resolveParts_def if_True if_False full sp np)
  then show ?thesis
    by (simp add: path_resolve_def pathOf_join[OF ne, symmetric] pathOf_append)
qed


lemma plain_index: "plainComponent ''index.html''"
  by (simp add: plainComponent_def isSep_def)

lemma plain_html: "plainComponent c \<Longrightarrow> plainComponent (c @ ''.html'')"
  by (cases c) (auto simp: plainComponent_def isSep_def)

lemma pathOf_snoc: "pathOf (xs @ [c]) = pathOf xs @ CHR ''/'' # c"
  by (simp add: pathOf_def)

lemma basename_pathOf:
  assumes "segs \<noteq> []" and "list_all plainComponent segs"
  shows "path_basename (pathOf segs) = last segs"
proof -
  from assms(1) obtain xs c where sc: "segs = xs @ [c]" by (metis append_butlast_last_id)
  with assms(2) have c: "plainComponent c" by simp
  then have ne: "c \<noteq> []" and ns: "\<forall>x \<in> set c. \<not> isSep x"
    by (simp_all add: plainComponent_def list_all_iff)
  have r: "rev (pathOf segs) = rev c @ CHR ''/'' # rev (pathOf xs)"
    by (simp add: sc pathOf_snoc)
  have "\<not> isSep (hd (rev c))" using ne ns by (simp add: hd_rev)
  then have d: "dropWhile isSep (rev c @ CHR ''/'' # rev (pathOf xs))
                  = rev c @ CHR ''/'' # rev (pathOf xs)"
    using ne by (cases "rev c") simp_all
  have "takeWhile (\<lambda>x. \<not> isSep x) (rev c @ CHR ''/'' # rev (pathOf xs))
          = takeWhile (\<lambda>x. \<not> isSep x) (rev c)"
    by (rule takeWhile_tail) (simp add: isSep_def)
  also have "\<dots> = rev c" using ns by (simp add: takeWhile_eq_all_conv)
  finally have t: "takeWhile (\<lambda>x. \<not> isSep x) (rev c @ CHR ''/'' # rev (pathOf xs)) = rev c" .
  show ?thesis unfolding path_basename_def r d t by (simp add: sc)
qed

lemma pathOf_not_endsWith_slash:
  assumes "segs \<noteq> []" and "list_all plainComponent segs"
  shows "\<not> endsWith (pathOf segs) ''/''"
proof -
  from assms(1) obtain xs c where sc: "segs = xs @ [c]" by (metis append_butlast_last_id)
  with assms(2) have c: "plainComponent c" by simp
  then have ne: "c \<noteq> []" and ns: "\<forall>x \<in> set c. \<not> isSep x"
    by (simp_all add: plainComponent_def list_all_iff)
  have "pathOf segs \<noteq> []" by (simp add: sc pathOf_snoc)
  moreover have "last (pathOf segs) = last c" using ne by (simp add: sc pathOf_snoc)
  moreover have "last c \<noteq> CHR ''/''" using ne ns by (auto simp: isSep_def)
  ultimately show ?thesis by (simp add: endsWith_single)
qed

lemma startsWith_pathOf: "segs \<noteq> [] \<Longrightarrow> startsWith (pathOf segs @ rest) ''/''"
  by (simp add: pathOf_join startsWith_def)

lemma output_index:
  assumes "paths_output cfg = pathOf outParts" and "outParts \<noteq> []"
    and "list_all plainComponent outParts" and "list_all plainComponent segs"
  shows "generateOutputPath env cfg (pathOf segs @ ''/'')
           = paths_output cfg @ pathOf segs @ ''/index.html''"
proof -
  let ?parts = "segs @ [''index.html'']"
  have e: "endsWith (pathOf segs @ ''/'') ''/''" by (simp add: endsWith_def)
  have f: "outputFilePath (pathOf segs @ ''/'') = pathOf ?parts"
    using e by (simp add: outputFilePath_def pathOf_snoc)
  have ne: "?parts \<noteq> []" by simp
  have pl: "list_all plainComponent ?parts" using assms(4) plain_index by simp
  have st: "startsWith (pathOf ?parts) ''/''" using startsWith_pathOf[OF ne, of "[]"] by simp
  have dr: "drop 1 (pathOf ?parts) = joinWith ''/'' ?parts" by (simp add: pathOf_join[OF ne])
  have "generateOutputPath env cfg (pathOf segs @ ''/'')
          = path_resolve (cwd env) (pathOf outParts) (joinWith ''/'' ?parts)"
    by (simp only: generateOutputPath_def Let_def f st if_True dr assms(1))
  also have "\<dots> = pathOf outParts @ pathOf ?parts"
    by (rule path_resolve_plain[OF assms(2,3) ne pl])
  finally show ?thesis by (simp add: assms(1) pathOf_snoc)
qed

lemma output_plain:
  assumes "paths_output cfg = pathOf outParts" and "outParts \<noteq> []"
    and "list_all plainComponent outParts" and "list_all plainComponent segs" and "segs \<noteq> []"
  shows "generateOutputPath env cfg (pathOf segs)
           = paths_output cfg @ pathOf segs
               @ (if path_extname (pathOf segs) = [] then ''.html'' else [])"
proof -
  have ne: "\<not> endsWith (pathOf segs) ''/''" by (rule pathOf_not_endsWith_slash[OF assms(5,4)])
  show ?thesis
  proof (cases "path_extname (pathOf segs) = []")
    case False
    have f: "outputFilePath (pathOf segs) = pathOf segs"
      using ne False by (simp add: outputFilePath_def)
    have st: "startsWith (pathOf segs) ''/''" using startsWith_pathOf[OF assms(5), of "[]"] by simp
    have dr: "drop 1 (pathOf segs) = joinWith ''/'' segs" by (simp add: pathOf_join[OF assms(5)])
    have "generateOutputPath env cfg (pathOf segs)
            = path_resolve (cwd env) (pathOf outParts) (joinWith ''/'' segs)"
      by (simp only: generateOutputPath_def Let_def f st if_True dr assms(1))
    also have "\<dots> = pathOf outParts @ pathOf segs"
      by (rule path_resolve_plain[OF assms(2,3,5,4)])
    finally show ?thesis using False by (simp add: assms(1))
  next
    case True
    from assms(5) obtain xs c where sc: "segs = xs @ [c]" by (metis append_butlast_last_id)
    let ?parts = "xs @ [c @ ''.html'']"
    have pe: "pathOf segs @ ''.html'' = pathOf ?parts" by (simp add: sc pathOf_snoc)
    have f: "outputFilePath (pathOf segs) = pathOf ?parts"
      using ne True by (simp add: outputFilePath_def pe)
    have pne: "?parts \<noteq> []" by simp
    have pl: "list_all plainComponent ?parts" using assms(4) sc plain_html by simp
    have st: "startsWith (pathOf ?parts) ''/''" using startsWith_pathOf[OF pne, of "[]"] by simp
    have dr: "drop 1 (pathOf ?parts) = joinWith ''/'' ?parts" by (simp add: pathOf_join[OF pne])
    have "generateOutputPath env cfg (pathOf segs)
            = path_resolve (cwd env) (pathOf outParts) (joinWith ''/'' ?parts)"
      by (simp only: generateOutputPath_def Let_def f st if_True dr assms(1))
    also have "\<dots> = pathOf outParts @ pathOf ?parts"
      by (rule path_resolve_plain[OF assms(2,3) pne pl])
    finally show ?thesis using True by (simp add: assms(1) pe[symmetric])
  qed
qed

text \<open>
  Claim C8: the output path of an item is computed from its permalink and the output
  root only: \<open>index.html\<close> is added to a permalink that ends in a slash, \<open>.html\<close> to
  another one without extension, and what follows the leading slash is resolved against
  the root. For an output root and a permalink in normal form (components that are not
  empty, hold no slash and are no dot segments): a permalink that ends in a slash gives
  the output root, the permalink and \<open>index.html\<close>; one that does not end in a slash
  gives the output root and the permalink as it is when its last component has an
  extension, and with \<open>.html\<close> added when it has none. The text after the leading slash of
  the permalink is what is resolved against the root.
\<close>

theorem output_path_law:
  assumes "paths_output cfg = pathOf outParts" and "outParts \<noteq> []"
    and "list_all plainComponent outParts" and "list_all plainComponent segs"
  shows "(\<forall>link. generateOutputPath env cfg link
            = path_resolve (cwd env) (paths_output cfg)
                (let filePath = (if endsWith link ''/'' then link @ ''index.html''
                                 else if path_extname link \<noteq> [] then link
                                 else link @ ''.html'')
                 in if startsWith filePath ''/'' then drop 1 filePath else filePath))
       \<and> generateOutputPath env cfg (pathOf segs @ ''/'')
           = paths_output cfg @ pathOf segs @ ''/index.html''
       \<and> (segs \<noteq> [] \<and> path_extname (pathOf segs) \<noteq> [] \<longrightarrow>
            generateOutputPath env cfg (pathOf segs) = paths_output cfg @ pathOf segs)
       \<and> (segs \<noteq> [] \<and> path_extname (pathOf segs) = [] \<longrightarrow>
            generateOutputPath env cfg (pathOf segs) = paths_output cfg @ pathOf segs @ ''.html'')
       \<and> (segs \<noteq> [] \<longrightarrow> path_extname (pathOf segs) = extOfBase (last segs))
       \<and> (\<forall>item \<in> set (posts (processContent env cfg files))
                    \<union> set (pages (processContent env cfg files))
                    \<union> set (drafts (processContent env cfg files)).
             outputPath item = generateOutputPath env cfg (permalink item))"
proof -
  note a = output_index[OF assms, of env]
  have b: "segs \<noteq> [] \<and> path_extname (pathOf segs) \<noteq> [] \<longrightarrow>
            generateOutputPath env cfg (pathOf segs) = paths_output cfg @ pathOf segs"
    using output_plain[OF assms, of env] by simp
  have c: "segs \<noteq> [] \<and> path_extname (pathOf segs) = [] \<longrightarrow>
            generateOutputPath env cfg (pathOf segs) = paths_output cfg @ pathOf segs @ ''.html''"
    using output_plain[OF assms, of env] by simp
  have d: "segs \<noteq> [] \<longrightarrow> path_extname (pathOf segs) = extOfBase (last segs)"
    using basename_pathOf[OF _ assms(4)] by (simp add: path_extname_def)
  have e: "\<forall>item \<in> set (posts (processContent env cfg files))
                    \<union> set (pages (processContent env cfg files))
                    \<union> set (drafts (processContent env cfg files)).
             outputPath item = generateOutputPath env cfg (permalink item)"
  proof
    fix item
    assume "item \<in> set (posts (processContent env cfg files))
                    \<union> set (pages (processContent env cfg files))
                    \<union> set (drafts (processContent env cfg files))"
    from item_origin[OF this] obtain f found where
      "processItem env cfg f (toItemType found) = Inr item" by blast
    then show "outputPath item = generateOutputPath env cfg (permalink item)"
      by (rule processItem_fields(6))
  qed
  have g: "\<forall>link. generateOutputPath env cfg link
            = path_resolve (cwd env) (paths_output cfg)
                (let filePath = (if endsWith link ''/'' then link @ ''index.html''
                                 else if path_extname link \<noteq> [] then link
                                 else link @ ''.html'')
                 in if startsWith filePath ''/'' then drop 1 filePath else filePath)"
    by (simp add: generateOutputPath_def outputFilePath_def Let_def)
  from g a b c d e show ?thesis by blast
qed

theorem output_path_law_witness:
  "generateOutputPath exampleEnv exampleConfig ''/blog/hello-world/''
     = ''/site/output/blog/hello-world/index.html''
   \<and> generateOutputPath exampleEnv exampleConfig ''/'' = ''/site/output/index.html''
   \<and> generateOutputPath exampleEnv exampleConfig ''/about'' = ''/site/output/about.html''
   \<and> generateOutputPath exampleEnv exampleConfig ''/feed.xml'' = ''/site/output/feed.xml''
   \<and> list_all (\<lambda>item. outputPath item = ''/site/output/about/index.html'')
        (pages (processContent exampleEnv exampleConfig [''/site/pages/about.md'']))"
proof -
  have o: "paths_output exampleConfig = pathOf [''site'', ''output'']" by code_simp
  have o': "paths_output exampleConfig = ''/site/output''" by (simp add: exampleConfig_def)
  have ne: "[''site'', ''output''] \<noteq> []" by simp
  have p: "list_all plainComponent [''site'', ''output'']" by code_simp
  have q1: "list_all plainComponent [''blog'', ''hello-world'']" by code_simp
  have q2: "list_all plainComponent []" by simp
  have q3: "list_all plainComponent [''about'']" by code_simp
  have q4: "list_all plainComponent [''feed.xml'']" by code_simp
  have e1: "pathOf [''blog'', ''hello-world''] = ''/blog/hello-world''" by (simp add: pathOf_def)
  have e2: "pathOf [] = []" by (simp add: pathOf_def)
  have e3: "pathOf [''about''] = ''/about''" by (simp add: pathOf_def)
  have e4: "pathOf [''feed.xml''] = ''/feed.xml''" by (simp add: pathOf_def)
  have x3: "[''about''] \<noteq> [] \<and> path_extname (pathOf [''about'']) = []" by code_simp
  have x4: "[''feed.xml''] \<noteq> [] \<and> path_extname (pathOf [''feed.xml'']) \<noteq> []" by code_simp
  have l: "list_all (\<lambda>item. permalink item = ''/about/'')
             (pages (processContent exampleEnv exampleConfig [''/site/pages/about.md'']))"
    by code_simp
  note L1 = output_path_law[OF o ne p q1, of exampleEnv "[]"]
  note L2 = output_path_law[OF o ne p q2, of exampleEnv "[]"]
  note L3 = output_path_law[OF o ne p q3, of exampleEnv "[''/site/pages/about.md'']"]
  note L4 = output_path_law[OF o ne p q4, of exampleEnv "[]"]
  from L1[THEN conjunct2, THEN conjunct1]
  have r1: "generateOutputPath exampleEnv exampleConfig ''/blog/hello-world/''
     = ''/site/output/blog/hello-world/index.html''"
    unfolding e1 o' by simp
  from L2[THEN conjunct2, THEN conjunct1]
  have r2: "generateOutputPath exampleEnv exampleConfig ''/'' = ''/site/output/index.html''"
    unfolding e2 o' by simp
  from L3[THEN conjunct2, THEN conjunct2, THEN conjunct2, THEN conjunct1] x3
  have r3: "generateOutputPath exampleEnv exampleConfig ''/about'' = ''/site/output/about.html''"
    unfolding e3 o' by simp
  from L4[THEN conjunct2, THEN conjunct2, THEN conjunct1] x4
  have r4: "generateOutputPath exampleEnv exampleConfig ''/feed.xml'' = ''/site/output/feed.xml''"
    unfolding e4 o' by simp
  from L3[THEN conjunct2, THEN conjunct1]
  have r5a: "generateOutputPath exampleEnv exampleConfig ''/about/''
               = ''/site/output/about/index.html''"
    unfolding e3 o' by simp
  from L3[THEN conjunct2, THEN conjunct2, THEN conjunct2, THEN conjunct2, THEN conjunct2]
  have r5b: "\<forall>item \<in> set (pages (processContent exampleEnv exampleConfig
                             [''/site/pages/about.md''])).
          outputPath item = generateOutputPath exampleEnv exampleConfig (permalink item)"
    by blast
  have r5: "list_all (\<lambda>item. outputPath item = ''/site/output/about/index.html'')
        (pages (processContent exampleEnv exampleConfig [''/site/pages/about.md'']))"
    unfolding list_all_iff
  proof
    fix item
    assume m: "item \<in> set (pages (processContent exampleEnv exampleConfig
                               [''/site/pages/about.md'']))"
    with l have "permalink item = ''/about/''" by (simp add: list_all_iff)
    with r5b m r5a show "outputPath item = ''/site/output/about/index.html''" by simp
  qed
  from r1 r2 r3 r4 r5 show ?thesis by blast
qed

end
